theory Spec2Isabelle
  imports Main
begin

chapter \<open>The casatools-to-casacore bridge (casacore_from_casatools.py)\<close>

text \<open>
  A shallow embedding of \<^verbatim>\<open>src/xradio/_utils/_casacore/casacore_from_casatools.py\<close>.
  Python values are a datatype, exceptions are the left summand of a sum type, methods
  thread the state of the underlying engine explicitly, and the engine itself (casatools)
  is a parameter of every definition that calls it.
\<close>

section \<open>Python values and exceptions\<close>

datatype pyerr =
    TypeError
  | KeyError
  | IndexError
  | ValueError
  | SyntaxError
  | RuntimeError
  | FileNotFoundError
  | ClosedHandleError

text \<open>
  A numpy array, as far as the module looks at it: its shape, its strides (counted in
  items, not bytes) and the buffer the strides index into.
\<close>

record ndarray =
  shape :: "nat list"
  strides :: "int list"
  data :: "int list"

text \<open>
  numpy sets the contiguity flags from the shape and the strides: an axis of length 1 is
  skipped (its stride is never used), and an array with an axis of length 0 is contiguous
  both ways. \<open>strides_match sd ds ss\<close> walks the axes in the order given, \<open>sd\<close> being
  the stride the next axis of length other than 1 must have.
\<close>

fun strides_match :: "int \<Rightarrow> nat list \<Rightarrow> int list \<Rightarrow> bool" where
  "strides_match sd [] ss = True"
| "strides_match sd (d # ds) [] = False"
| "strides_match sd (d # ds) (s # ss) =
     (if d = 1 then strides_match sd ds ss
      else s = sd \<and> strides_match (sd * int d) ds ss)"

definition f_contiguous :: "ndarray \<Rightarrow> bool" where
  "f_contiguous a = (0 \<in> set (shape a) \<or> strides_match 1 (shape a) (strides a))"

definition c_contiguous :: "ndarray \<Rightarrow> bool" where
  "c_contiguous a =
     (0 \<in> set (shape a) \<or> strides_match 1 (rev (shape a)) (rev (strides a)))"

text \<open>\<^verbatim>\<open>val.T\<close>: the view with the axes reversed, over the same buffer.\<close>

definition ndarray_T :: "ndarray \<Rightarrow> ndarray" where
  "ndarray_T a = a\<lparr>shape := rev (shape a), strides := rev (strides a)\<rparr>"

definition nd_offset :: "int list \<Rightarrow> nat list \<Rightarrow> int" where
  "nd_offset ss idx = sum_list (map2 (\<lambda>s i. s * int i) ss idx)"

text \<open>\<^verbatim>\<open>a[i, j, ...]\<close> for an index inside the shape; \<open>None\<close> outside it.\<close>

definition nd_item :: "ndarray \<Rightarrow> nat list \<Rightarrow> int option" where
  "nd_item a idx =
     (if list_all2 (<) idx (shape a) \<and> length (strides a) = length (shape a) then
        (let off = nd_offset (strides a) idx
         in if 0 \<le> off \<and> nat off < length (data a) then Some (data a ! nat off) else None)
      else None)"

text \<open>
  The values that cross the boundary. A \<^verbatim>\<open>dict\<close> is the list of its items in insertion
  order; its keys are strings here (column names, record fields) and pairwise distinct.
  \<open>PyObj\<close> is any other object (a tool handle, a table), named by a string.
\<close>

datatype pyval =
    PyNone
  | PyBool bool
  | PyInt int
  | PyStr string
  | PyObj string
  | PyArray ndarray
  | PyTuple "pyval list"
  | PyList "pyval list"
  | PyDict "(string \<times> pyval) list"

section \<open>The normalizer and the method wrappers\<close>

text \<open>
  \<^verbatim>\<open>recursive_transpose\<close>, lines 60-80. The branches are the source's, in its order:
  an \<^verbatim>\<open>np.ndarray\<close> whose \<^verbatim>\<open>flags.f_contiguous\<close> is set, a \<^verbatim>\<open>list\<close>, a \<^verbatim>\<open>dict\<close>,
  and everything else. The dict comprehension visits the items in order and keeps
  each key.
\<close>

fun recursive_transpose :: "pyval \<Rightarrow> pyval" where
  "recursive_transpose (PyArray a) = (if f_contiguous a then PyArray (ndarray_T a) else PyArray a)"
| "recursive_transpose (PyList items) = PyList (map recursive_transpose items)"
| "recursive_transpose (PyDict kvs) =
     PyDict (map (\<lambda>(key, v). (key, recursive_transpose v)) kvs)"
| "recursive_transpose v = v"

text \<open>
  A method takes its arguments and the engine's state, and returns a value or raises,
  together with the state it leaves.
\<close>

type_synonym ('a, 's) pymethod = "'a \<Rightarrow> 's \<Rightarrow> (pyerr + pyval) \<times> 's"

text \<open>\<^verbatim>\<open>method_wrapper\<close>, lines 38-57: call the method, normalize what it returns.\<close>

definition method_wrapper :: "('a, 's) pymethod \<Rightarrow> ('a, 's) pymethod" where
  "method_wrapper method =
     (\<lambda>args s. case method args s of
        (Inl e, s') \<Rightarrow> (Inl e, s')
      | (Inr ret, s') \<Rightarrow> (Inr (recursive_transpose ret), s'))"

text \<open>
  A class, as \<^verbatim>\<open>wrap_class_methods\<close> sees it: the namespace of the class itself and the
  members it inherits. A member is a plain function or anything else.
\<close>

datatype ('a, 's) member = Function "('a, 's) pymethod" | Attribute pyval

record ('a, 's) pyclass =
  cls_dict :: "(string \<times> ('a, 's) member) list"
  cls_base :: "(string \<times> ('a, 's) member) list"

definition getattr_cls :: "('a, 's) pyclass \<Rightarrow> string \<Rightarrow> ('a, 's) member option" where
  "getattr_cls c name =
     (case map_of (cls_dict c) name of
        Some m \<Rightarrow> Some m
      | None \<Rightarrow> map_of (cls_base c) name)"

text \<open>\<^verbatim>\<open>d[k] = v\<close> on a dict: an existing key keeps its place, a new one goes last.\<close>

fun dict_setitem :: "(string \<times> 'v) list \<Rightarrow> string \<Rightarrow> 'v \<Rightarrow> (string \<times> 'v) list" where
  "dict_setitem [] k v = [(k, v)]"
| "dict_setitem ((k', v') # d) k v =
     (if k' = k then (k', v) # d else (k', v') # dict_setitem d k v)"

definition setattr_cls ::
  "('a, 's) pyclass \<Rightarrow> string \<Rightarrow> ('a, 's) member \<Rightarrow> ('a, 's) pyclass" where
  "setattr_cls c name m = c\<lparr>cls_dict := dict_setitem (cls_dict c) name m\<rparr>"

text \<open>
  \<^verbatim>\<open>inspect.getmembers(cls, predicate=inspect.isfunction)\<close>: every name of the class and
  its bases once, with the member the class resolves it to, kept when that is a function.
  (inspect sorts the pairs by name; the names are distinct, so the order of the
  \<^verbatim>\<open>setattr\<close> calls does not show in the result.)
\<close>

definition getmembers_isfunction ::
  "('a, 's) pyclass \<Rightarrow> (string \<times> ('a, 's) pymethod) list" where
  "getmembers_isfunction c =
     concat (map (\<lambda>name. case getattr_cls c name of
                            Some (Function f) \<Rightarrow> [(name, f)]
                          | _ \<Rightarrow> [])
                 (remdups (map fst (cls_dict c) @ map fst (cls_base c))))"

text \<open>\<^verbatim>\<open>wrap_class_methods\<close>, lines 83-99 (\<^verbatim>\<open>callable(method)\<close> holds of every function).\<close>

definition wrap_class_methods :: "('a, 's) pyclass \<Rightarrow> ('a, 's) pyclass" where
  "wrap_class_methods c =
     fold (\<lambda>(name, method) cls. setattr_cls cls name (Function (method_wrapper method)))
          (getmembers_isfunction c) c"

text \<open>
  Two readings of a value, used to state what the normalizer keeps and what it changes:
  the arrays it reaches through lists and dicts, in order, and the value with each of
  those arrays blanked.
\<close>

fun arrays_of :: "pyval \<Rightarrow> ndarray list" where
  "arrays_of (PyArray a) = [a]"
| "arrays_of (PyList items) = concat (map arrays_of items)"
| "arrays_of (PyDict kvs) = concat (map (\<lambda>(key, v). arrays_of v) kvs)"
| "arrays_of v = []"

fun skeleton :: "pyval \<Rightarrow> pyval" where
  "skeleton (PyArray a) = PyNone"
| "skeleton (PyList items) = PyList (map skeleton items)"
| "skeleton (PyDict kvs) = PyDict (map (\<lambda>(key, v). (key, skeleton v)) kvs)"
| "skeleton v = v"

definition normalize_array :: "ndarray \<Rightarrow> ndarray" where
  "normalize_array a = (if f_contiguous a then ndarray_T a else a)"

section \<open>Row and column views\<close>

text \<open>A \<^verbatim>\<open>slice\<close> object and the key of \<^verbatim>\<open>__getitem__\<close>.\<close>

record pyslice =
  sl_start :: "int option"
  sl_stop :: "int option"
  sl_step :: "int option"

datatype pykey = KeyInt int | KeySlice pyslice | KeyOther

text \<open>\<^verbatim>\<open>slice.indices(length)\<close>, as CPython computes it.\<close>

definition clamp_index :: "int \<Rightarrow> int \<Rightarrow> int \<Rightarrow> int \<Rightarrow> int" where
  "clamp_index lower upper len i =
     (if i < 0 then (if i + len < lower then lower else i + len)
      else (if i > upper then upper else i))"

definition slice_indices :: "pyslice \<Rightarrow> int \<Rightarrow> pyerr + (int \<times> int \<times> int)" where
  "slice_indices sl len =
     (let st = (case sl_step sl of None \<Rightarrow> 1 | Some k \<Rightarrow> k) in
      if st = 0 then Inl ValueError
      else
        let lower = (if st < 0 then - 1 else 0);
            upper = (if st < 0 then len - 1 else len);
            a = (case sl_start sl of
                   None \<Rightarrow> (if st < 0 then upper else lower)
                 | Some i \<Rightarrow> clamp_index lower upper len i);
            b = (case sl_stop sl of
                   None \<Rightarrow> (if st < 0 then lower else upper)
                 | Some i \<Rightarrow> clamp_index lower upper len i)
        in Inr (a, b, st))"

text \<open>\<^verbatim>\<open>range(a, b, st)\<close> for a step other than 0.\<close>

definition py_range :: "int \<Rightarrow> int \<Rightarrow> int \<Rightarrow> int list" where
  "py_range a b st =
     (let n = (if st > 0 then (if a < b then (b - a + st - 1) div st else 0)
               else (if a > b then (a - b - st - 1) div (- st) else 0))
      in map (\<lambda>i. a + int i * st) [0..<nat n])"

text \<open>
  \<^verbatim>\<open>[f(x) for x in xs]\<close>: the calls run in order on the state; the first exception ends
  the comprehension.
\<close>

fun comprehension :: "('a, 's) pymethod \<Rightarrow> 'a list \<Rightarrow> 's \<Rightarrow> (pyerr + pyval list) \<times> 's" where
  "comprehension f [] s = (Inr [], s)"
| "comprehension f (x # xs) s =
     (case f x s of
        (Inl e, s') \<Rightarrow> (Inl e, s')
      | (Inr v, s') \<Rightarrow>
          (case comprehension f xs s' of
             (Inl e, s'') \<Rightarrow> (Inl e, s'')
           | (Inr vs, s'') \<Rightarrow> (Inr (v # vs), s'')))"

text \<open>
  \<^verbatim>\<open>tablerow\<close>, lines 542-591. \<open>raw\<close> is \<^verbatim>\<open>casatools.tablerow.get\<close>. The body of
  \<^verbatim>\<open>get\<close> calls the base class; the \<^verbatim>\<open>def\<close> carries
  \<^verbatim>\<open>@method_wrapper\<close>, and \<^verbatim>\<open>@wrap_class_methods\<close> on the class then wraps the function it
  finds under the name \<^verbatim>\<open>get\<close>, which is the wrapped one.
\<close>

definition tablerow_get_body :: "(int, 's) pymethod \<Rightarrow> (int, 's) pymethod" where
  "tablerow_get_body raw = (\<lambda>rownr. raw rownr)"

definition tablerow_get :: "(int, 's) pymethod \<Rightarrow> (int, 's) pymethod" where
  "tablerow_get raw = method_wrapper (method_wrapper (tablerow_get_body raw))"

text \<open>
  The body of \<^verbatim>\<open>__getitem__\<close> (the same text in both views): \<open>get\<close> is \<^verbatim>\<open>self.get\<close>, the
  method the finished class holds, and \<open>row_count\<close> is the call that gives the number
  of rows, \<^verbatim>\<open>len(self)\<close> in the row view and \<^verbatim>\<open>self._table.nrows()\<close> in the column
  view. Both are calls of the engine, which may raise; the decorated methods return the
  count as the engine gives it, since the normalizer leaves an integer alone. The count
  is asked for first, then \<^verbatim>\<open>key.indices\<close>, then the rows in order. A key that is
  neither a slice nor an int falls off the end of the function, which returns
  \<^verbatim>\<open>None\<close>.
\<close>

definition getitem_body ::
  "(int, 's) pymethod \<Rightarrow> ('s \<Rightarrow> (pyerr + nat) \<times> 's) \<Rightarrow> (pykey, 's) pymethod" where
  "getitem_body get row_count =
     (\<lambda>key s. case key of
        KeySlice sl \<Rightarrow>
          (case row_count s of
             (Inl e, s0) \<Rightarrow> (Inl e, s0)
           | (Inr n, s0) \<Rightarrow>
               (case slice_indices sl (int n) of
                  Inl e \<Rightarrow> (Inl e, s0)
                | Inr (a, b, st) \<Rightarrow>
                    (case comprehension get (py_range a b st) s0 of
                       (Inl e, s') \<Rightarrow> (Inl e, s')
                     | (Inr vs, s') \<Rightarrow> (Inr (PyList vs), s'))))
      | KeyInt k \<Rightarrow> get k s
      | KeyOther \<Rightarrow> (Inr PyNone, s))"

text \<open>\<^verbatim>\<open>__getitem__\<close> is a function of the class too, so the class decorator wraps it.\<close>

definition tablerow_getitem ::
  "(int, 's) pymethod \<Rightarrow> ('s \<Rightarrow> (pyerr + nat) \<times> 's) \<Rightarrow> (pykey, 's) pymethod" where
  "tablerow_getitem raw row_count = method_wrapper (getitem_body (tablerow_get raw) row_count)"





section \<open>The table facade\<close>

text \<open>
  An index argument of \<^verbatim>\<open>getcellslice\<close>: a single integer, or a sequence of them
  (what \<^verbatim>\<open>isinstance(x, Sequence)\<close> accepts).
\<close>

datatype pyarg = ArgInt int | ArgSeq "int list"

text \<open>
  The keyword arguments \<^verbatim>\<open>getcellslice\<close> hands to \<^verbatim>\<open>casatools.table.getcellslice\<close>.
  The source passes \<^verbatim>\<open>columnname\<close>, \<^verbatim>\<open>rownr\<close>, \<^verbatim>\<open>blc\<close> and \<^verbatim>\<open>trc\<close>; \<open>call_incr\<close> is
  \<open>None\<close> when no \<^verbatim>\<open>incr\<close> keyword is passed.
\<close>

record cellslice_call =
  call_columnname :: string
  call_rownr :: pyarg
  call_blc :: pyarg
  call_trc :: pyarg
  call_incr :: "pyarg option"

definition py_len :: "pyarg \<Rightarrow> pyerr + nat" where
  "py_len x = (case x of ArgInt i \<Rightarrow> Inl TypeError | ArgSeq xs \<Rightarrow> Inr (length xs))"

text \<open>\<^verbatim>\<open>if isinstance(x, Sequence): x = list(map(int, x[::-1]))\<close>, and nothing otherwise.\<close>

definition reversed_if_sequence :: "pyarg \<Rightarrow> pyarg" where
  "reversed_if_sequence x = (case x of ArgInt i \<Rightarrow> ArgInt i | ArgSeq xs \<Rightarrow> ArgSeq (rev xs))"

text \<open>
  \<^verbatim>\<open>if isinstance(x, Sequence): x = x[::-1]\<close>, \<^verbatim>\<open>else: x = [x]*len(blc)\<close>; \<^verbatim>\<open>len\<close> of
  an integer raises.
\<close>

definition reversed_or_repeated :: "pyarg \<Rightarrow> pyarg \<Rightarrow> pyerr + pyarg" where
  "reversed_or_repeated x blc =
     (case x of
        ArgSeq xs \<Rightarrow> Inr (ArgSeq (rev xs))
      | ArgInt i \<Rightarrow>
          (case py_len blc of Inl e \<Rightarrow> Inl e | Inr n \<Rightarrow> Inr (ArgSeq (replicate n i))))"

text \<open>
  \<^verbatim>\<open>table.getcellslice\<close>, lines 251-300, up to the call of the base class. The source
  assigns \<^verbatim>\<open>rownr = 0\<close> after reversing it (\<open>rownr1\<close> is not read again), and computes
  the stride (\<open>incr1\<close>) without passing it on.
\<close>

definition getcellslice_call ::
  "string \<Rightarrow> pyarg \<Rightarrow> pyarg \<Rightarrow> pyarg \<Rightarrow> pyarg \<Rightarrow> pyerr + cellslice_call" where
  "getcellslice_call columnname rownr blc trc incr =
     (case reversed_or_repeated rownr blc of
        Inl e \<Rightarrow> Inl e
      | Inr rownr1 \<Rightarrow>
          (let rownr2 = ArgInt 0;
               blc1 = reversed_if_sequence blc;
               trc1 = reversed_if_sequence trc
           in case reversed_or_repeated incr blc1 of
                Inl e \<Rightarrow> Inl e
              | Inr incr1 \<Rightarrow>
                  Inr \<lparr>call_columnname = columnname, call_rownr = rownr2,
                       call_blc = blc1, call_trc = trc1, call_incr = None\<rparr>))"

text \<open>The method as the decorated class holds it; \<open>raw\<close> is the base class's method.\<close>

definition table_getcellslice ::
  "(cellslice_call, 's) pymethod \<Rightarrow>
   (string \<times> pyarg \<times> pyarg \<times> pyarg \<times> pyarg, 's) pymethod" where
  "table_getcellslice raw =
     method_wrapper (\<lambda>(columnname, rownr, blc, trc, incr) s.
        case getcellslice_call columnname rownr blc trc incr of
          Inl e \<Rightarrow> (Inl e, s)
        | Inr call \<Rightarrow> raw call s)"

text \<open>
  \<^verbatim>\<open>table.__init__\<close>, lines 130-144. The arguments are the parameters of the
  \<^verbatim>\<open>def\<close>, \<open>kwargs\<close> holding every other keyword the caller gave.
\<close>

record table_init_args =
  tablename :: string
  tabledesc :: bool
  nrow :: int
  readonly :: bool
  lockoptions :: "(string \<times> pyval) list"
  ack :: bool
  dminfo :: "(string \<times> pyval) list"
  endian :: string
  memorytable :: bool
  concatsubtables :: "pyval list"
  kwargs :: "(string \<times> pyval) list"

text \<open>
  What reaches \<^verbatim>\<open>casatools.table.__init__\<close>: \<^verbatim>\<open>tablename\<close>, \<^verbatim>\<open>lockoptions\<close>,
  \<^verbatim>\<open>nomodify\<close> and the remaining keywords.
\<close>

record engine_open =
  open_tablename :: string
  open_lockoptions :: "(string \<times> pyval) list"
  open_nomodify :: bool
  open_kwargs :: "(string \<times> pyval) list"

text \<open>
  \<^verbatim>\<open>super().__init__(tablename=tablename, lockoptions=lockoptions, nomodify=True, **kwargs)\<close>:
  a \<^verbatim>\<open>nomodify\<close> among the remaining keywords is a repeated keyword argument, which
  Python refuses with a \<^verbatim>\<open>TypeError\<close> before the base class runs.
\<close>

definition table_init :: "table_init_args \<Rightarrow> pyerr + engine_open" where
  "table_init args =
     (if ''nomodify'' \<in> set (map fst (kwargs args)) then Inl TypeError
      else Inr \<lparr>open_tablename = tablename args, open_lockoptions = lockoptions args,
                open_nomodify = True, open_kwargs = kwargs args\<rparr>)"

text \<open>The defaults of the \<^verbatim>\<open>def\<close>.\<close>

definition default_table_init_args :: table_init_args where
  "default_table_init_args =
     \<lparr>tablename = [], tabledesc = False, nrow = 0, readonly = True, lockoptions = [],
      ack = True, dminfo = [], endian = ''aipsrc'', memorytable = False,
      concatsubtables = [], kwargs = []\<rparr>"

text \<open>\<^verbatim>\<open>_wrap_table\<close>, lines 22-35: \<^verbatim>\<open>table(swig_object=swig_object)\<close>.\<close>

definition wrap_table :: "string \<Rightarrow> pyerr + engine_open" where
  "wrap_table swig_object =
     table_init (default_table_init_args\<lparr>kwargs := [(''swig_object'', PyObj swig_object)]\<rparr>)"

section \<open>The coordinate system view\<close>

text \<open>
  The engine's coordinate system, as \<^verbatim>\<open>get_axes\<close> and \<^verbatim>\<open>get_names\<close> use it: what
  the calls \<^verbatim>\<open>names()\<close>, \<^verbatim>\<open>coordinatetype()\<close> and \<^verbatim>\<open>findcoordinate(type)\<close> do. Each
  returns or raises; of the record \<^verbatim>\<open>findcoordinate\<close> returns, the view reads the
  \<^verbatim>\<open>'pixel'\<close> entry with \<^verbatim>\<open>.get\<close> (\<open>None\<close> when the record has none).
\<close>

record coordsys =
  cs_names :: "pyerr + string list"
  cs_coordinatetype :: "pyerr + string list"
  cs_findcoordinate :: "string \<Rightarrow> pyerr + int list option"

text \<open>\<^verbatim>\<open>str.lower\<close> on ASCII text.\<close>

definition char_lower :: "char \<Rightarrow> char" where
  "char_lower c =
     (let n = (of_char c :: nat) in if 65 \<le> n \<and> n \<le> 90 then char_of (n + 32) else c)"

definition str_lower :: "string \<Rightarrow> string" where
  "str_lower s = map char_lower s"

text \<open>\<^verbatim>\<open>xs[i]\<close> on a list: a negative index counts from the end.\<close>

definition py_index :: "'a list \<Rightarrow> int \<Rightarrow> pyerr + 'a" where
  "py_index xs i =
     (if 0 \<le> i \<and> i < int (length xs) then Inr (xs ! nat i)
      else if i < 0 \<and> - int (length xs) \<le> i then Inr (xs ! nat (int (length xs) + i))
      else Inl IndexError)"

text \<open>A comprehension over calls that may raise and have no effect on the state.\<close>

fun map_result :: "('a \<Rightarrow> pyerr + 'b) \<Rightarrow> 'a list \<Rightarrow> pyerr + 'b list" where
  "map_result f [] = Inr []"
| "map_result f (x # xs) =
     (case f x of
        Inl e \<Rightarrow> Inl e
      | Inr y \<Rightarrow> (case map_result f xs of Inl e \<Rightarrow> Inl e | Inr ys \<Rightarrow> Inr (y # ys)))"

text \<open>\<^verbatim>\<open>get_names\<close>, lines 511-519.\<close>

definition get_names :: "coordsys \<Rightarrow> pyerr + string list" where
  "get_names cs =
     (case cs_coordinatetype cs of
        Inl e \<Rightarrow> Inl e
      | Inr types \<Rightarrow> Inr (map str_lower (rev types)))"

text \<open>
  \<^verbatim>\<open>get_axes\<close>, lines 452-469: the body of the loop for one coordinate type, and the
  function, which asks for the axis names, then for the type names, then runs the
  loop. \<^verbatim>\<open>None[::-1]\<close> is a \<^verbatim>\<open>TypeError\<close>, \<^verbatim>\<open>axes_list[0]\<close> on an empty list an
  \<^verbatim>\<open>IndexError\<close>.
\<close>

definition axes_entry :: "coordsys \<Rightarrow> string list \<Rightarrow> string \<Rightarrow> pyerr + pyval" where
  "axes_entry cs axis_names axis_type =
     (case cs_findcoordinate cs axis_type of
        Inl e \<Rightarrow> Inl e
      | Inr None \<Rightarrow> Inl TypeError
      | Inr (Some axis_inds) \<Rightarrow>
          (case map_result (py_index axis_names) (rev axis_inds) of
             Inl e \<Rightarrow> Inl e
           | Inr axes_list \<Rightarrow>
               if axis_type = ''spectral'' then
                 (case py_index axes_list 0 of Inl e \<Rightarrow> Inl e | Inr name \<Rightarrow> Inr (PyStr name))
               else Inr (PyList (map PyStr axes_list))))"

definition get_axes :: "coordsys \<Rightarrow> pyerr + pyval" where
  "get_axes cs =
     (case cs_names cs of
        Inl e \<Rightarrow> Inl e
      | Inr axis_names \<Rightarrow>
          (case get_names cs of
             Inl e \<Rightarrow> Inl e
           | Inr types \<Rightarrow>
               (case map_result (axes_entry cs axis_names) types of
                  Inl e \<Rightarrow> Inl e
                | Inr axes \<Rightarrow> Inr (PyList axes))))"

section \<open>Queries on a table\<close>

text \<open>
  What \<^verbatim>\<open>taql\<close> acts on: the table directories on disk and the tables the engine
  holds open, each by its path.
\<close>

record world =
  fs_dirs :: "string list"
  open_tables :: "string list"

text \<open>
  The engine calls \<^verbatim>\<open>taql\<close> makes: \<^verbatim>\<open>isopened(name)\<close>, \<^verbatim>\<open>copy(newname, deep=False,
  valuecopy=False)\<close> of the table \<open>name\<close>, \<^verbatim>\<open>_swigobj.taql(query)\<close> on a table (it
  returns the result table, named by a string here, or raises) and \<^verbatim>\<open>close()\<close>.
\<close>

record engine =
  eng_isopened :: "string \<Rightarrow> world \<Rightarrow> bool"
  eng_copy :: "string \<Rightarrow> string \<Rightarrow> world \<Rightarrow> (pyerr + unit) \<times> world"
  eng_taql :: "string \<Rightarrow> string \<Rightarrow> world \<Rightarrow> (pyerr + string) \<times> world"
  eng_close :: "string \<Rightarrow> world \<Rightarrow> world"

text \<open>\<^verbatim>\<open>shutil.rmtree(path)\<close>: removes the directory, or raises when there is none.\<close>

definition rmtree :: "string \<Rightarrow> world \<Rightarrow> (pyerr + unit) \<times> world" where
  "rmtree path w =
     (if path \<in> set (fs_dirs w) then (Inr (), w\<lparr>fs_dirs := removeAll path (fs_dirs w)\<rparr>)
      else (Inl FileNotFoundError, w))"

text \<open>\<^verbatim>\<open>s.replace(old, new)\<close>: every occurrence of \<open>old\<close>, left to right.\<close>

function py_replace :: "string \<Rightarrow> string \<Rightarrow> string \<Rightarrow> string" where
  "py_replace old new s =
     (if s = [] \<or> old = [] then s
      else if take (length old) s = old then new @ py_replace old new (drop (length old) s)
      else hd s # py_replace old new (tl s))"
  by pat_completeness auto
termination
  by (relation "measure (\<lambda>(old, new, s). length s)") auto

declare py_replace.simps [simp del]

text \<open>
  \<^verbatim>\<open>table.taql\<close>, lines 178-221; \<open>name\<close> is \<^verbatim>\<open>self.name()\<close>. An exception of the copy
  or of the query leaves the function where it is raised: the source has no
  \<^verbatim>\<open>try\<close> around them. The result is the table \<^verbatim>\<open>_wrap_table\<close> builds around the
  engine's result.
\<close>

definition taql :: "engine \<Rightarrow> string \<Rightarrow> (string, world) pymethod" where
  "taql eng name =
     (\<lambda>taqlcommand w.
        let is_open = eng_isopened eng name w;
            tablename = (if \<not> is_open then name @ ''_copy'' else name)
        in case (if \<not> is_open then eng_copy eng name tablename w else (Inr (), w)) of
             (Inl e, w1) \<Rightarrow> (Inl e, w1)
           | (Inr u, w1) \<Rightarrow>
               (let tb_query = py_replace ''$gtable'' tablename
                                 (py_replace ''$mtable'' tablename taqlcommand)
                in case eng_taql eng tablename tb_query w1 of
                     (Inl e, w2) \<Rightarrow> (Inl e, w2)
                   | (Inr tb_query_to, w2) \<Rightarrow>
                       if \<not> is_open then
                         (case rmtree tablename (eng_close eng tablename w2) of
                            (Inl e, w3) \<Rightarrow> (Inl e, w3)
                          | (Inr u', w3) \<Rightarrow> (Inr (PyObj tb_query_to), w3))
                       else (Inr (PyObj tb_query_to), w2)))"

text \<open>The method as the decorated class holds it.\<close>

definition table_taql :: "engine \<Rightarrow> string \<Rightarrow> (string, world) pymethod" where
  "table_taql eng name = method_wrapper (taql eng name)"

text \<open>
  An engine for the examples: a copy creates the directory and opens it, closing
  forgets the handle, and the query is answered by \<open>q\<close> without touching the disk.
\<close>

definition simple_engine :: "(string \<Rightarrow> pyerr + string) \<Rightarrow> engine" where
  "simple_engine q =
     \<lparr>eng_isopened = (\<lambda>n w. n \<in> set (open_tables w)),
      eng_copy = (\<lambda>src new w.
         (Inr (), w\<lparr>fs_dirs := new # fs_dirs w, open_tables := new # open_tables w\<rparr>)),
      eng_taql = (\<lambda>t query w. (q query, w)),
      eng_close = (\<lambda>n w. w\<lparr>open_tables := removeAll n (open_tables w)\<rparr>)\<rparr>"




section \<open>Column shapes as text\<close>

text \<open>\<^verbatim>\<open>str\<close> of an integer and of a list of integers.\<close>

definition digit_char :: "nat \<Rightarrow> char" where
  "digit_char d = char_of (48 + d)"

function str_nat :: "nat \<Rightarrow> string" where
  "str_nat n = (if n < 10 then [digit_char n] else str_nat (n div 10) @ [digit_char (n mod 10)])"
  by pat_completeness auto
termination
  by (relation "measure id") auto

declare str_nat.simps [simp del]

definition str_int :: "int \<Rightarrow> string" where
  "str_int i = (if i < 0 then CHR ''-'' # str_nat (nat (- i)) else str_nat (nat i))"

fun join_comma :: "string list \<Rightarrow> string" where
  "join_comma [] = []"
| "join_comma [x] = x"
| "join_comma (x # y # zs) = x @ '', '' @ join_comma (y # zs)"

definition str_int_list :: "int list \<Rightarrow> string" where
  "str_int_list xs = ''['' @ join_comma (map str_int xs) @ '']''"

text \<open>
  \<^verbatim>\<open>ast.literal_eval\<close> on the texts the engine writes for a shape, a list display of
  decimal integers such as \<^verbatim>\<open>[5, 10]\<close>: one pass over the characters. A number with a
  leading zero is refused, as Python refuses it; blanks may stand between the tokens
  and a comma may follow the last item. Texts of any other form are outside this
  reader, which refuses them.
\<close>

datatype lit_state =
    LitStart
  | LitItem "int list"
  | LitSign "int list"
  | LitNumber bool bool nat "int list"
  | LitAfter "int list"
  | LitDone "int list"
  | LitFail

definition is_digit :: "char \<Rightarrow> bool" where
  "is_digit c = (48 \<le> (of_char c :: nat) \<and> (of_char c :: nat) \<le> 57)"

definition digit_val :: "char \<Rightarrow> nat" where
  "digit_val c = of_char c - 48"

definition is_space :: "char \<Rightarrow> bool" where
  "is_space c = (c = CHR '' '' \<or> c = CHR 0x09)"

definition push_number :: "bool \<Rightarrow> nat \<Rightarrow> int list \<Rightarrow> int list" where
  "push_number neg v acc = (if neg then - int v else int v) # acc"

fun lit_step :: "char \<Rightarrow> lit_state \<Rightarrow> lit_state" where
  "lit_step c LitStart =
     (if is_space c then LitStart else if c = CHR ''['' then LitItem [] else LitFail)"
| "lit_step c (LitItem acc) =
     (if is_space c then LitItem acc
      else if c = CHR '']'' then LitDone acc
      else if c = CHR ''-'' then LitSign acc
      else if is_digit c then LitNumber False (c = CHR ''0'') (digit_val c) acc
      else LitFail)"
| "lit_step c (LitSign acc) =
     (if is_space c then LitSign acc
      else if is_digit c then LitNumber True (c = CHR ''0'') (digit_val c) acc
      else LitFail)"
| "lit_step c (LitNumber neg zero v acc) =
     (if is_digit c then
        (if zero \<and> c \<noteq> CHR ''0'' then LitFail
         else LitNumber neg zero (10 * v + digit_val c) acc)
      else if is_space c then LitAfter (push_number neg v acc)
      else if c = CHR '','' then LitItem (push_number neg v acc)
      else if c = CHR '']'' then LitDone (push_number neg v acc)
      else LitFail)"
| "lit_step c (LitAfter acc) =
     (if is_space c then LitAfter acc
      else if c = CHR '','' then LitItem acc
      else if c = CHR '']'' then LitDone acc
      else LitFail)"
| "lit_step c (LitDone acc) = (if is_space c then LitDone acc else LitFail)"
| "lit_step c LitFail = LitFail"

definition literal_eval_ints :: "string \<Rightarrow> pyerr + int list" where
  "literal_eval_ints s =
     (case fold lit_step s LitStart of
        LitDone acc \<Rightarrow> Inr (rev acc)
      | _ \<Rightarrow> Inl SyntaxError)"

text \<open>
  \<^verbatim>\<open>table.getcolshapestring\<close>, lines 223-249. \<open>raw\<close> is the base class's method, which
  returns a list of texts; \<open>ev\<close> is \<^verbatim>\<open>ast.literal_eval\<close> on one of them, giving the
  integers of the sequence it denotes (or the exception that it, or \<^verbatim>\<open>reversed\<close> on
  what it denotes, raises).
\<close>

definition getcolshapestring ::
  "(string \<Rightarrow> pyerr + int list) \<Rightarrow> ('a \<Rightarrow> 's \<Rightarrow> (pyerr + string list) \<times> 's) \<Rightarrow> ('a, 's) pymethod" where
  "getcolshapestring ev raw =
     (\<lambda>args s. case raw args s of
        (Inl e, s') \<Rightarrow> (Inl e, s')
      | (Inr ret, s') \<Rightarrow>
          (case map_result (\<lambda>shape. case ev shape of
                                      Inl e \<Rightarrow> Inl e
                                    | Inr dims \<Rightarrow> Inr (PyStr (str_int_list (rev dims)))) ret of
             Inl e \<Rightarrow> (Inl e, s')
           | Inr texts \<Rightarrow> (Inr (PyList texts), s')))"

text \<open>The method as the decorated class holds it.\<close>

definition table_getcolshapestring ::
  "(string \<Rightarrow> pyerr + int list) \<Rightarrow> ('a \<Rightarrow> 's \<Rightarrow> (pyerr + string list) \<times> 's) \<Rightarrow> ('a, 's) pymethod" where
  "table_getcolshapestring ev raw = method_wrapper (getcolshapestring ev raw)"

section \<open>The image facade\<close>

text \<open>
  \<^verbatim>\<open>d[k]\<close> with a string key: a dict looks the key up, an array refuses a string as an
  index, and nothing else here can be indexed by one.
\<close>

definition py_getitem :: "pyval \<Rightarrow> string \<Rightarrow> pyerr + pyval" where
  "py_getitem d k =
     (case d of
        PyDict kvs \<Rightarrow> (case map_of kvs k of None \<Rightarrow> Inl KeyError | Some v \<Rightarrow> Inr v)
      | PyArray a \<Rightarrow> Inl IndexError
      | _ \<Rightarrow> Inl TypeError)"

text \<open>The integer \<^verbatim>\<open>range\<close> and \<^verbatim>\<open>*\<close> take a value for (\<^verbatim>\<open>bool\<close> is a subclass of \<^verbatim>\<open>int\<close>).\<close>

definition py_int :: "pyval \<Rightarrow> pyerr + int" where
  "py_int v =
     (case v of
        PyInt n \<Rightarrow> Inr n
      | PyBool b \<Rightarrow> Inr (if b then 1 else 0)
      | _ \<Rightarrow> Inl TypeError)"

text \<open>\<^verbatim>\<open>range(n)\<close>.\<close>

definition range_stop :: "int \<Rightarrow> nat list" where
  "range_stop n = [0..<nat n]"

text \<open>A \<^verbatim>\<open>for\<close> loop over a list that updates one variable; an exception ends it.\<close>

fun for_each :: "('a \<Rightarrow> 'st \<Rightarrow> pyerr + 'st) \<Rightarrow> 'a list \<Rightarrow> 'st \<Rightarrow> pyerr + 'st" where
  "for_each f [] st = Inr st"
| "for_each f (x # xs) st =
     (case f x st of Inl e \<Rightarrow> Inl e | Inr st' \<Rightarrow> for_each f xs st')"

text \<open>\<^verbatim>\<open>d.pop(k, None)\<close> and \<^verbatim>\<open>d.update(e)\<close>, as far as the dict they leave.\<close>

definition dict_pop :: "(string \<times> 'v) list \<Rightarrow> string \<Rightarrow> (string \<times> 'v) list" where
  "dict_pop d k = filter (\<lambda>kv. fst kv \<noteq> k) d"

definition dict_update :: "(string \<times> 'v) list \<Rightarrow> (string \<times> 'v) list \<Rightarrow> (string \<times> 'v) list" where
  "dict_update d e = fold (\<lambda>(k, v) d'. dict_setitem d' k v) e d"

text \<open>
  \<^verbatim>\<open>image._flatten_multibeam\<close>, lines 410-439. \<open>beam_entry\<close> is the body of the inner
  loop, lines 434-435; \<^verbatim>\<open>range(npol)\<close> is evaluated once per channel. The source
  changes the dict under \<^verbatim>\<open>'perplanebeams'\<close> in place; \<open>imageinfo\<close> is the list of
  the items of the summary.
\<close>

definition beam_entry ::
  "pyval \<Rightarrow> int \<Rightarrow> nat \<Rightarrow> nat \<Rightarrow> (string \<times> pyval) list \<Rightarrow> pyerr + (string \<times> pyval) list" where
  "beam_entry perplanebeams nchan c p flat =
     (let k = nchan * int p + int c in
      case py_getitem perplanebeams (''*'' @ str_nat c) of
        Inl e \<Rightarrow> Inl e
      | Inr row \<Rightarrow>
          (case py_getitem row (''*'' @ str_nat p) of
             Inl e \<Rightarrow> Inl e
           | Inr beam \<Rightarrow> Inr (dict_setitem flat (''*'' @ str_int k) beam)))"

definition flatten_multibeam :: "(string \<times> pyval) list \<Rightarrow> pyerr + (string \<times> pyval) list" where
  "flatten_multibeam imageinfo =
     (case map_of imageinfo ''perplanebeams'' of
        None \<Rightarrow> Inr imageinfo
      | Some ppb \<Rightarrow>
     (case py_getitem ppb ''beams'' of Inl e \<Rightarrow> Inl e | Inr perplanebeams \<Rightarrow>
     (case py_getitem ppb ''nChannels'' of Inl e \<Rightarrow> Inl e | Inr nchan_v \<Rightarrow>
     (case py_getitem ppb ''nStokes'' of Inl e \<Rightarrow> Inl e | Inr npol_v \<Rightarrow>
     (case py_int nchan_v of Inl e \<Rightarrow> Inl e | Inr nchan \<Rightarrow>
     (case for_each
             (\<lambda>c flat. case py_int npol_v of
                          Inl e \<Rightarrow> Inl e
                        | Inr npol \<Rightarrow>
                            for_each (beam_entry perplanebeams nchan c) (range_stop npol) flat)
             (range_stop nchan) [] of
        Inl e \<Rightarrow> Inl e
      | Inr perplanebeams_flat \<Rightarrow>
          (case ppb of
             PyDict items \<Rightarrow>
               Inr (dict_setitem imageinfo ''perplanebeams''
                      (PyDict (dict_update (dict_pop items ''beams'') perplanebeams_flat)))
           | _ \<Rightarrow> Inl TypeError)))))))"

text \<open>
  The methods of the decorated class \<^verbatim>\<open>image\<close> that \<^verbatim>\<open>info\<close> calls on \<^verbatim>\<open>self\<close>:
  \<^verbatim>\<open>summary\<close> and \<^verbatim>\<open>miscinfo\<close> are inherited from the engine (\<open>raw\<close>) and wrapped,
  \<^verbatim>\<open>_flatten_multibeam\<close> is the class's own and wrapped. \<^verbatim>\<open>info\<close> passes the summary, a
  dict; the membership test of the source on a value that is no dict is not modelled
  and is an error here.
\<close>

definition image_summary :: "(unit, 's) pymethod \<Rightarrow> (unit, 's) pymethod" where
  "image_summary raw = method_wrapper raw"

definition image_miscinfo :: "(unit, 's) pymethod \<Rightarrow> (unit, 's) pymethod" where
  "image_miscinfo raw = method_wrapper raw"

definition image_flatten_multibeam :: "(pyval, 's) pymethod" where
  "image_flatten_multibeam =
     method_wrapper (\<lambda>imageinfo s. case imageinfo of
        PyDict items \<Rightarrow>
          (case flatten_multibeam items of
             Inl e \<Rightarrow> (Inl e, s)
           | Inr items' \<Rightarrow> (Inr (PyDict items'), s))
      | _ \<Rightarrow> (Inl TypeError, s))"

text \<open>
  \<^verbatim>\<open>image.info\<close>, lines 388-405. \<open>raw_coordsys_torecord\<close> is
  \<^verbatim>\<open>self.coordsys().torecord()\<close>: the record comes from the engine's coordinate system
  tool, whose methods are not wrapped.
\<close>

definition image_info ::
  "(unit, 's) pymethod \<Rightarrow> (unit, 's) pymethod \<Rightarrow> (unit, 's) pymethod \<Rightarrow> (unit, 's) pymethod" where
  "image_info raw_summary raw_coordsys_torecord raw_miscinfo =
     method_wrapper (\<lambda>u s.
        case image_summary raw_summary () s of
          (Inl e, s1) \<Rightarrow> (Inl e, s1)
        | (Inr imageinfo0, s1) \<Rightarrow>
        (case image_flatten_multibeam imageinfo0 s1 of
          (Inl e, s2) \<Rightarrow> (Inl e, s2)
        | (Inr imageinfo, s2) \<Rightarrow>
        (case raw_coordsys_torecord () s2 of
          (Inl e, s3) \<Rightarrow> (Inl e, s3)
        | (Inr coordinates, s3) \<Rightarrow>
        (case image_miscinfo raw_miscinfo () s3 of
          (Inl e, s4) \<Rightarrow> (Inl e, s4)
        | (Inr miscinfo, s4) \<Rightarrow>
            (Inr (PyDict [(''imageinfo'', imageinfo), (''coordinates'', coordinates),
                          (''miscinfo'', miscinfo)]), s4)))))"

text \<open>
  For the statements about the loop: the key the source computes for channel \<open>c\<close> and
  polarization \<open>p\<close>, and the dict the two loops build when every beam \<open>b c p\<close> is found.
\<close>

definition beam_key :: "int \<Rightarrow> nat \<times> nat \<Rightarrow> string" where
  "beam_key nchan cp = ''*'' @ str_int (nchan * int (snd cp) + int (fst cp))"

definition flat_beams :: "int \<Rightarrow> int \<Rightarrow> (nat \<Rightarrow> nat \<Rightarrow> pyval) \<Rightarrow> (string \<times> pyval) list" where
  "flat_beams nchan npol b =
     fold (\<lambda>cp d. dict_setitem d (beam_key nchan cp) (b (fst cp) (snd cp)))
          (List.product [0..<nat nchan] [0..<nat npol]) []"

chapter \<open>Properties\<close>

section \<open>Arrays\<close>

lemma shape_T: "shape (ndarray_T a) = rev (shape a)"
  by (simp add: ndarray_T_def)

lemma T_T: "ndarray_T (ndarray_T a) = a"
  by (simp add: ndarray_T_def)

lemma c_contiguous_T: "c_contiguous (ndarray_T a) = f_contiguous a"
  by (simp add: c_contiguous_def f_contiguous_def ndarray_T_def)

lemma f_contiguous_T: "f_contiguous (ndarray_T a) = c_contiguous a"
  by (simp add: c_contiguous_def f_contiguous_def ndarray_T_def)

lemma nd_offset_rev:
  assumes "length ss = length idx"
  shows "nd_offset (rev ss) idx = nd_offset ss (rev idx)"
proof -
  have "zip (rev ss) idx = rev (zip ss (rev idx))"
    using assms zip_rev [of ss "rev idx"] by simp
  then show ?thesis
    by (simp add: nd_offset_def rev_map [symmetric])
qed

lemma list_all2_rev_swap: "list_all2 P xs (rev ys) = list_all2 P (rev xs) ys"
  using list_all2_rev [of P "rev xs" ys] by simp

text \<open>The transposed view holds at index \<open>idx\<close> what the array holds at the reversed index.\<close>

lemma nd_item_T: "nd_item (ndarray_T a) idx = nd_item a (rev idx)"
proof (cases "list_all2 (<) (rev idx) (shape a) \<and> length (strides a) = length (shape a)")
  case True
  then have "length (strides a) = length idx"
    by (auto dest: list_all2_lengthD)
  with True show ?thesis
    by (simp add: nd_item_def ndarray_T_def nd_offset_rev Let_def list_all2_rev_swap)
next
  case False
  then show ?thesis
    by (auto simp add: nd_item_def ndarray_T_def list_all2_rev_swap)
qed

section \<open>The normalizer\<close>

lemma skeleton_recursive_transpose: "skeleton (recursive_transpose v) = skeleton v"
  by (induction v rule: recursive_transpose.induct) auto

lemma arrays_of_recursive_transpose:
  "arrays_of (recursive_transpose v) = map normalize_array (arrays_of v)"
proof (induction v rule: recursive_transpose.induct)
  case (1 a)
  then show ?case by (simp add: normalize_array_def)
next
  case (2 items)
  then show ?case by (simp add: map_concat comp_def cong: map_cong)
next
  case (3 kvs)
  have "map (\<lambda>x. arrays_of (recursive_transpose (snd x))) kvs
        = map (\<lambda>x. map normalize_array (arrays_of (snd x))) kvs"
  proof (rule map_cong [OF refl])
    fix x assume "x \<in> set kvs"
    then show "arrays_of (recursive_transpose (snd x)) = map normalize_array (arrays_of (snd x))"
      using 3 [of x "fst x" "snd x"] by simp
  qed
  then have "concat (map (\<lambda>x. arrays_of (recursive_transpose (snd x))) kvs)
        = concat (map (\<lambda>x. map normalize_array (arrays_of (snd x))) kvs)"
    by (rule arg_cong)
  then show ?case by (simp add: map_concat comp_def case_prod_unfold)
qed simp_all

lemma recursive_transpose_dict_keys:
  "map fst (map (\<lambda>(key, v). (key, recursive_transpose v)) kvs) = map fst kvs"
  by (induction kvs) auto

lemma recursive_transpose_dict_values:
  "i < length kvs \<Longrightarrow>
   snd (map (\<lambda>(key, v). (key, recursive_transpose v)) kvs ! i)
     = recursive_transpose (snd (kvs ! i))"
  by (simp add: case_prod_unfold)

text \<open>
  Claim C1, as the code has it. The normalizer returns the transposed view of an array
  whose \<^verbatim>\<open>f_contiguous\<close> flag is set (the view has the reversed shape, is C-contiguous
  and holds at every index what the array holds at the reversed index) and returns any
  other array as it is; for a \<^verbatim>\<open>list\<close> it returns a list of the same length with the
  normalizer applied to each element in order; for a dict with distinct keys it returns
  a dict with the same keys in the same order and the normalizer applied to each value;
  every other value, a tuple included, is returned unchanged. Hence, whatever the
  nesting of lists and dicts, the arrays reached through them are normalized one by one
  and nothing else of the value changes.
\<close>

theorem recursive_transpose_cases:
  "(f_contiguous a \<longrightarrow>
      recursive_transpose (PyArray a) = PyArray (ndarray_T a)
      \<and> shape (ndarray_T a) = rev (shape a)
      \<and> c_contiguous (ndarray_T a)
      \<and> (\<forall>idx. nd_item (ndarray_T a) idx = nd_item a (rev idx)))
   \<and> (\<not> f_contiguous a \<longrightarrow> recursive_transpose (PyArray a) = PyArray a)
   \<and> (\<exists>ys. recursive_transpose (PyList xs) = PyList ys \<and> length ys = length xs
          \<and> (\<forall>i < length xs. ys ! i = recursive_transpose (xs ! i)))
   \<and> (distinct (map fst kvs) \<longrightarrow>
        (\<exists>kvs'. recursive_transpose (PyDict kvs) = PyDict kvs'
           \<and> map fst kvs' = map fst kvs \<and> distinct (map fst kvs')
           \<and> (\<forall>i < length kvs. snd (kvs' ! i) = recursive_transpose (snd (kvs ! i)))))
   \<and> recursive_transpose PyNone = PyNone
   \<and> recursive_transpose (PyBool b) = PyBool b
   \<and> recursive_transpose (PyInt n) = PyInt n
   \<and> recursive_transpose (PyStr s) = PyStr s
   \<and> recursive_transpose (PyObj obj) = PyObj obj
   \<and> recursive_transpose (PyTuple ts) = PyTuple ts
   \<and> skeleton (recursive_transpose v) = skeleton v
   \<and> arrays_of (recursive_transpose v) = map normalize_array (arrays_of v)"
proof -
  have arr: "f_contiguous a \<longrightarrow>
      recursive_transpose (PyArray a) = PyArray (ndarray_T a)
      \<and> shape (ndarray_T a) = rev (shape a)
      \<and> c_contiguous (ndarray_T a)
      \<and> (\<forall>idx. nd_item (ndarray_T a) idx = nd_item a (rev idx))"
    by (simp add: shape_T c_contiguous_T nd_item_T)
  have nfc: "\<not> f_contiguous a \<longrightarrow> recursive_transpose (PyArray a) = PyArray a"
    by simp
  have lst: "\<exists>ys. recursive_transpose (PyList xs) = PyList ys \<and> length ys = length xs
          \<and> (\<forall>i < length xs. ys ! i = recursive_transpose (xs ! i))"
    by simp
  have dct: "distinct (map fst kvs) \<longrightarrow>
        (\<exists>kvs'. recursive_transpose (PyDict kvs) = PyDict kvs'
           \<and> map fst kvs' = map fst kvs \<and> distinct (map fst kvs')
           \<and> (\<forall>i < length kvs. snd (kvs' ! i) = recursive_transpose (snd (kvs ! i))))"
  proof
    assume d: "distinct (map fst kvs)"
    let ?kvs' = "map (\<lambda>(key, v). (key, recursive_transpose v)) kvs"
    have "recursive_transpose (PyDict kvs) = PyDict ?kvs'" by simp
    moreover have "map fst ?kvs' = map fst kvs" by (rule recursive_transpose_dict_keys)
    moreover have "distinct (map fst ?kvs')" using d by (simp only: recursive_transpose_dict_keys)
    moreover have "\<forall>i < length kvs. snd (?kvs' ! i) = recursive_transpose (snd (kvs ! i))"
      using recursive_transpose_dict_values by blast
    ultimately show "\<exists>kvs'. recursive_transpose (PyDict kvs) = PyDict kvs'
           \<and> map fst kvs' = map fst kvs \<and> distinct (map fst kvs')
           \<and> (\<forall>i < length kvs. snd (kvs' ! i) = recursive_transpose (snd (kvs ! i)))"
      by blast
  qed
  show ?thesis
    by (intro conjI arr nfc lst dct skeleton_recursive_transpose
        arrays_of_recursive_transpose recursive_transpose.simps)
qed

text \<open>
  The example of the spec: \<^verbatim>\<open>{"a": [{"x": array}]}\<close> with a Fortran-ordered array of
  shape \<open>(2, 3)\<close>. The array comes back with shape \<open>(3, 2)\<close>, the key \<^verbatim>\<open>"a"\<close> still
  holds a list of one dict with the key \<^verbatim>\<open>"x"\<close>.
\<close>

theorem recursive_transpose_cases_witness:
  "f_contiguous \<lparr>shape = [2, 3], strides = [1, 2], data = [1, 2, 3, 4, 5, 6]\<rparr>
   \<and> distinct (map fst [(''a'', PyList [PyDict [(''x'',
        PyArray \<lparr>shape = [2, 3], strides = [1, 2], data = [1, 2, 3, 4, 5, 6]\<rparr>)]])])
   \<and> recursive_transpose
       (PyDict [(''a'', PyList [PyDict [(''x'',
          PyArray \<lparr>shape = [2, 3], strides = [1, 2], data = [1, 2, 3, 4, 5, 6]\<rparr>)]])])
     = PyDict [(''a'', PyList [PyDict [(''x'',
          PyArray \<lparr>shape = [3, 2], strides = [2, 1], data = [1, 2, 3, 4, 5, 6]\<rparr>)]])]
   \<and> arrays_of (recursive_transpose
       (PyDict [(''a'', PyList [PyDict [(''x'',
          PyArray \<lparr>shape = [2, 3], strides = [1, 2], data = [1, 2, 3, 4, 5, 6]\<rparr>)]])]))
     = [\<lparr>shape = [3, 2], strides = [2, 1], data = [1, 2, 3, 4, 5, 6]\<rparr>]"
  using recursive_transpose_cases [of
      "\<lparr>shape = [2, 3], strides = [1, 2], data = [1, 2, 3, 4, 5, 6]\<rparr>"
      "[PyDict [(''x'', PyArray \<lparr>shape = [2, 3], strides = [1, 2], data = [1, 2, 3, 4, 5, 6]\<rparr>)]]"
      "[(''a'', PyList [PyDict [(''x'',
          PyArray \<lparr>shape = [2, 3], strides = [1, 2], data = [1, 2, 3, 4, 5, 6]\<rparr>)]])]"
      True 0 "[]" "[]" "[]"
      "PyDict [(''a'', PyList [PyDict [(''x'',
          PyArray \<lparr>shape = [2, 3], strides = [1, 2], data = [1, 2, 3, 4, 5, 6]\<rparr>)]])]"]
  by (simp add: f_contiguous_def ndarray_T_def normalize_array_def)

text \<open>
  Claim C1 as the spec states it speaks of every ordered sequence. The code walks a
  \<^verbatim>\<open>list\<close> only: a tuple holding the same Fortran-ordered array is returned as it is,
  which is not the tuple of the normalized elements.
\<close>

theorem recursive_transpose_tuple_counterexample:
  "recursive_transpose
     (PyTuple [PyArray \<lparr>shape = [2, 3], strides = [1, 2], data = [1, 2, 3, 4, 5, 6]\<rparr>])
   \<noteq> PyTuple (map recursive_transpose
       [PyArray \<lparr>shape = [2, 3], strides = [1, 2], data = [1, 2, 3, 4, 5, 6]\<rparr>])"
  by (simp add: f_contiguous_def ndarray_T_def)

text \<open>
  A second pass of the normalizer changes nothing when every array it reaches that is
  F-contiguous is either not C-contiguous as well or equal to its own transposed view.
  An array with an axis of length 1 and another of greater length is neither.
\<close>

lemma recursive_transpose_twice:
  "(\<forall>a \<in> set (arrays_of v). f_contiguous a \<longrightarrow> \<not> c_contiguous a \<or> ndarray_T a = a) \<Longrightarrow>
   recursive_transpose (recursive_transpose v) = recursive_transpose v"
proof (induction v rule: recursive_transpose.induct)
  case (1 a)
  then show ?case by (auto simp: f_contiguous_T)
next
  case (2 items)
  then show ?case by auto
next
  case (3 kvs)
  have "map (\<lambda>x. (fst x, recursive_transpose (recursive_transpose (snd x)))) kvs
      = map (\<lambda>x. (fst x, recursive_transpose (snd x))) kvs"
  proof (rule map_cong [OF refl])
    fix x assume x: "x \<in> set kvs"
    with 3(2) have "\<forall>a \<in> set (arrays_of (snd x)).
        f_contiguous a \<longrightarrow> \<not> c_contiguous a \<or> ndarray_T a = a"
      by (auto simp: case_prod_unfold)
    from 3(1) [OF x, of "fst x" "snd x", OF _ this]
    show "(fst x, recursive_transpose (recursive_transpose (snd x)))
        = (fst x, recursive_transpose (snd x))"
      by simp
  qed
  then show ?case by (simp add: case_prod_unfold comp_def)
qed simp_all

section \<open>The method wrappers\<close>

lemma map_of_dict_setitem: "map_of (dict_setitem d k v) = (map_of d)(k \<mapsto> v)"
  by (induction d k v rule: dict_setitem.induct) (auto simp: fun_eq_iff)

lemma keys_dict_setitem:
  "map fst (dict_setitem d k v) = (if k \<in> fst ` set d then map fst d else map fst d @ [k])"
  by (induction d k v rule: dict_setitem.induct) auto

lemma distinct_dict_setitem:
  "distinct (map fst d) \<Longrightarrow> distinct (map fst (dict_setitem d k v))"
  by (simp add: keys_dict_setitem)

lemma getattr_setattr:
  "getattr_cls (setattr_cls c n m) name = (if name = n then Some m else getattr_cls c name)"
  by (simp add: getattr_cls_def setattr_cls_def map_of_dict_setitem split: option.splits)

lemma getattr_fold_setattr:
  "distinct (map fst ms) \<Longrightarrow>
   getattr_cls (fold (\<lambda>(n, m) cls. setattr_cls cls n (Function (g m))) ms c) name =
     (case map_of ms name of Some m \<Rightarrow> Some (Function (g m)) | None \<Rightarrow> getattr_cls c name)"
proof (induction ms arbitrary: c)
  case Nil
  then show ?case by simp
next
  case (Cons x ms)
  obtain n m where x: "x = (n, m)" by (cases x)
  from Cons.prems x have notin: "n \<notin> fst ` set ms" and d: "distinct (map fst ms)" by auto
  from notin have none: "map_of ms n = None" by (simp add: map_of_eq_None_iff)
  show ?case
    using Cons.IH [OF d, of "setattr_cls c n (Function (g m))"] none
    by (auto simp: x getattr_setattr split: option.splits)
qed

lemma getmembers_keys_distinct: "distinct (map fst (getmembers_isfunction c))"
proof -
  have "\<And>names. distinct names \<Longrightarrow>
      distinct (map fst (concat (map (\<lambda>name. case getattr_cls c name of
                            Some (Function f) \<Rightarrow> [(name, f)]
                          | _ \<Rightarrow> []) names)))"
  proof -
    fix names :: "string list"
    assume "distinct names"
    then show "distinct (map fst (concat (map (\<lambda>name. case getattr_cls c name of
                            Some (Function f) \<Rightarrow> [(name, f)]
                          | _ \<Rightarrow> []) names)))"
    proof (induction names)
      case Nil
      then show ?case by simp
    next
      case (Cons a names)
      have sub: "fst ` set (concat (map (\<lambda>name. case getattr_cls c name of
                            Some (Function f) \<Rightarrow> [(name, f)]
                          | _ \<Rightarrow> []) names)) \<subseteq> set names"
        by (auto split: option.splits member.splits)
      with Cons show ?case
        by (auto split: option.splits member.splits)
    qed
  qed
  then show ?thesis by (simp add: getmembers_isfunction_def)
qed

lemma getattr_in_names:
  "getattr_cls c name = Some m \<Longrightarrow> name \<in> set (map fst (cls_dict c) @ map fst (cls_base c))"
  by (auto simp: getattr_cls_def split: option.splits dest!: map_of_SomeD intro: rev_image_eqI)

lemma map_of_getmembers:
  "map_of (getmembers_isfunction c) name =
     (case getattr_cls c name of Some (Function f) \<Rightarrow> Some f | _ \<Rightarrow> None)"
proof -
  have gen: "\<And>names. map_of (concat (map (\<lambda>name. case getattr_cls c name of
                            Some (Function f) \<Rightarrow> [(name, f)]
                          | _ \<Rightarrow> []) names)) name =
      (if name \<in> set names
       then (case getattr_cls c name of Some (Function f) \<Rightarrow> Some f | _ \<Rightarrow> None)
       else None)"
  proof -
    fix names :: "string list"
    show "map_of (concat (map (\<lambda>name. case getattr_cls c name of
                            Some (Function f) \<Rightarrow> [(name, f)]
                          | _ \<Rightarrow> []) names)) name =
      (if name \<in> set names
       then (case getattr_cls c name of Some (Function f) \<Rightarrow> Some f | _ \<Rightarrow> None)
       else None)"
      by (induction names) (auto split: option.splits member.splits)
  qed
  show ?thesis
  proof (cases "getattr_cls c name")
    case None
    then show ?thesis by (simp add: getmembers_isfunction_def gen)
  next
    case (Some m)
    from getattr_in_names [OF this] show ?thesis
      by (simp add: getmembers_isfunction_def gen)
  qed
qed

text \<open>
  The class decorator replaces every function the class resolves a name to, its own or
  an inherited one, by the wrapped function, and leaves every other member alone. A
  function that is already the result of \<^verbatim>\<open>method_wrapper\<close> is wrapped once more.
\<close>

lemma getattr_wrap_class_methods:
  "getattr_cls (wrap_class_methods c) name =
     (case getattr_cls c name of
        Some (Function f) \<Rightarrow> Some (Function (method_wrapper f))
      | other \<Rightarrow> other)"
  unfolding wrap_class_methods_def
  by (simp add: getattr_fold_setattr [OF getmembers_keys_distinct] map_of_getmembers
      split: option.splits member.splits)

text \<open>
  The wrapped method passes its arguments on as they are, leaves the state the method
  leaves, raises what it raises, and normalizes the value it returns.
\<close>

lemma method_wrapper_apply:
  "method_wrapper m args s = (map_sum id recursive_transpose (fst (m args s)), snd (m args s))"
  by (simp add: method_wrapper_def split: prod.splits sum.splits)

text \<open>
  Claim C2, at the input where the code departs from it. \<^verbatim>\<open>tablerow.get\<close> is wrapped
  twice. The engine returns the cell \<^verbatim>\<open>DATA\<close> as a Fortran-ordered array of shape
  \<open>(1, 3)\<close>; with an axis of length 1 numpy flags it as F-contiguous and as C-contiguous,
  and so it flags the transposed view. The first wrapper transposes the array, the
  second transposes it back: the caller gets shape \<open>(1, 3)\<close>, where one pass of the
  normalizer gives \<open>(3, 1)\<close>.
\<close>

theorem tablerow_get_transposes_twice:
  "tablerow_get
     (\<lambda>rownr s. (Inr (PyDict [(''DATA'',
        PyArray \<lparr>shape = [1, 3], strides = [1, 1], data = [7, 8, 9]\<rparr>)]), s))
     0 ()
   = (Inr (PyDict [(''DATA'',
        PyArray \<lparr>shape = [1, 3], strides = [1, 1], data = [7, 8, 9]\<rparr>)]), ())
   \<and> recursive_transpose
       (PyDict [(''DATA'', PyArray \<lparr>shape = [1, 3], strides = [1, 1], data = [7, 8, 9]\<rparr>)])
     = PyDict [(''DATA'', PyArray \<lparr>shape = [3, 1], strides = [1, 1], data = [7, 8, 9]\<rparr>)]"
  by (simp add: tablerow_get_def tablerow_get_body_def method_wrapper_def f_contiguous_def
      ndarray_T_def)

section \<open>Row and column views\<close>

text \<open>
  For an integer key the decorated \<^verbatim>\<open>__getitem__\<close> returns what \<^verbatim>\<open>get\<close> returns,
  normalized once more. For a slice its body resolves \<^verbatim>\<open>view[1:3]\<close> over at least
  three rows to the calls \<^verbatim>\<open>get(1)\<close>, \<^verbatim>\<open>get(2)\<close>, in this order, after the call that
  counts the rows.
\<close>

lemma tablerow_getitem_int:
  "tablerow_getitem raw row_count (KeyInt k) s =
     (case tablerow_get raw k s of
        (Inl e, s') \<Rightarrow> (Inl e, s')
      | (Inr v, s') \<Rightarrow> (Inr (recursive_transpose v), s'))"
  by (simp add: tablerow_getitem_def getitem_body_def method_wrapper_def)

lemma getitem_body_slice_1_3:
  "row_count s = (Inr n, s0) \<Longrightarrow> 3 \<le> n \<Longrightarrow>
   getitem_body get row_count
       (KeySlice \<lparr>sl_start = Some 1, sl_stop = Some 3, sl_step = None\<rparr>) s =
     (case comprehension get [1, 2] s0 of
        (Inl e, s') \<Rightarrow> (Inl e, s')
      | (Inr vs, s') \<Rightarrow> (Inr (PyList vs), s'))"
proof -
  assume c: "row_count s = (Inr n, s0)"
  assume "3 \<le> n"
  then have "slice_indices \<lparr>sl_start = Some 1, sl_stop = Some 3, sl_step = None\<rparr> (int n)
      = Inr (1, 3, 1)"
    by (simp add: slice_indices_def clamp_index_def)
  moreover have "py_range 1 3 1 = [1, 2]"
    by (simp add: py_range_def upt_rec)
  ultimately show ?thesis
    using c by (simp add: getitem_body_def)
qed

text \<open>
  Claim C6, at the input where the code departs from it. \<^verbatim>\<open>__getitem__\<close> is itself a
  function of the decorated class, so what it returns is normalized once more than
  what \<^verbatim>\<open>get\<close> returns. On the row above, \<^verbatim>\<open>view[0]\<close> holds the array with shape
  \<open>(3, 1)\<close> and \<^verbatim>\<open>view.get(0)\<close> holds it with shape \<open>(1, 3)\<close>; \<^verbatim>\<open>view[0:1]\<close> is the list
  of the former, not of the latter.
\<close>

theorem tablerow_getitem_differs_from_get:
  "tablerow_getitem
     (\<lambda>rownr s. (Inr (PyDict [(''DATA'',
        PyArray \<lparr>shape = [1, 3], strides = [1, 1], data = [7, 8, 9]\<rparr>)]), s))
     (\<lambda>s. (Inr 1, s)) (KeyInt 0) ()
   = (Inr (PyDict [(''DATA'',
        PyArray \<lparr>shape = [3, 1], strides = [1, 1], data = [7, 8, 9]\<rparr>)]), ())
   \<and> tablerow_get
     (\<lambda>rownr s. (Inr (PyDict [(''DATA'',
        PyArray \<lparr>shape = [1, 3], strides = [1, 1], data = [7, 8, 9]\<rparr>)]), s))
     0 ()
   = (Inr (PyDict [(''DATA'',
        PyArray \<lparr>shape = [1, 3], strides = [1, 1], data = [7, 8, 9]\<rparr>)]), ())
   \<and> tablerow_getitem
     (\<lambda>rownr s. (Inr (PyDict [(''DATA'',
        PyArray \<lparr>shape = [1, 3], strides = [1, 1], data = [7, 8, 9]\<rparr>)]), s))
     (\<lambda>s. (Inr 1, s)) (KeySlice \<lparr>sl_start = Some 0, sl_stop = Some 1, sl_step = None\<rparr>) ()
   = (Inr (PyList [PyDict [(''DATA'',
        PyArray \<lparr>shape = [3, 1], strides = [1, 1], data = [7, 8, 9]\<rparr>)]]), ())"
  by (simp add: tablerow_getitem_def getitem_body_def tablerow_get_def tablerow_get_body_def
      method_wrapper_def f_contiguous_def ndarray_T_def slice_indices_def clamp_index_def
      py_range_def)

section \<open>The table facade\<close>

text \<open>
  Whatever the caller passes, a call that reaches the engine asks for row 0 and carries
  no stride; the two corners are passed reversed.
\<close>

lemma getcellslice_call_row_and_stride:
  "getcellslice_call columnname rownr blc trc incr = Inr call \<Longrightarrow>
     call_rownr call = ArgInt 0 \<and> call_incr call = None
     \<and> call_blc call = reversed_if_sequence blc \<and> call_trc call = reversed_if_sequence trc"
  by (auto simp: getcellslice_call_def Let_def split: sum.splits)

text \<open>
  Claim C3, at an input where the code departs from it: row 5, corners \<open>[0, 1]\<close> and
  \<open>[2, 3]\<close>, stride 2. The engine is called with the corners reversed, but with row 0
  and without a stride (so with its default); an engine that echoes the row and reports
  whether a stride came shows the same through the decorated method.
\<close>

theorem getcellslice_drops_row_and_stride:
  "getcellslice_call ''DATA'' (ArgInt 5) (ArgSeq [0, 1]) (ArgSeq [2, 3]) (ArgInt 2)
   = Inr \<lparr>call_columnname = ''DATA'', call_rownr = ArgInt 0,
          call_blc = ArgSeq [1, 0], call_trc = ArgSeq [3, 2], call_incr = None\<rparr>
   \<and> table_getcellslice
       (\<lambda>call s. (Inr (PyTuple [PyStr (call_columnname call),
          (case call_rownr call of ArgInt i \<Rightarrow> PyInt i | ArgSeq xs \<Rightarrow> PyList (map PyInt xs)),
          PyBool (call_incr call = None)]), s))
       (''DATA'', ArgInt 5, ArgSeq [0, 1], ArgSeq [2, 3], ArgInt 2) ()
     = (Inr (PyTuple [PyStr ''DATA'', PyInt 0, PyBool True]), ())"
  by (simp add: getcellslice_call_def reversed_or_repeated_def reversed_if_sequence_def
      py_len_def table_getcellslice_def method_wrapper_def)

text \<open>
  Claim C10. A call of \<^verbatim>\<open>table.__init__\<close> that reaches the engine opens it with
  \<^verbatim>\<open>nomodify=True\<close>, with the caller's \<^verbatim>\<open>tablename\<close>, \<^verbatim>\<open>lockoptions\<close> and extra
  keywords; the only failure is a \<^verbatim>\<open>nomodify\<close> keyword of the caller's. The values of
  \<^verbatim>\<open>readonly\<close>, \<^verbatim>\<open>tabledesc\<close>, \<^verbatim>\<open>nrow\<close>, \<^verbatim>\<open>ack\<close>, \<^verbatim>\<open>dminfo\<close>, \<^verbatim>\<open>endian\<close>,
  \<^verbatim>\<open>memorytable\<close> and \<^verbatim>\<open>concatsubtables\<close> change nothing. A table wrapped around an
  engine object by \<^verbatim>\<open>_wrap_table\<close> goes the same way.
\<close>

theorem table_init_read_only:
  "(table_init args = Inr call \<longrightarrow>
      open_nomodify call = True \<and> open_tablename call = tablename args
      \<and> open_lockoptions call = lockoptions args \<and> open_kwargs call = kwargs args)
   \<and> (table_init args = Inl e \<longrightarrow> e = TypeError \<and> ''nomodify'' \<in> set (map fst (kwargs args)))
   \<and> table_init (args\<lparr>readonly := ro, tabledesc := td, nrow := n, ack := ak, dminfo := dm,
          endian := en, memorytable := mt, concatsubtables := cs\<rparr>) = table_init args
   \<and> (\<forall>call. wrap_table obj = Inr call \<longrightarrow> open_nomodify call = True)"
  by (auto simp: table_init_def wrap_table_def split: if_splits)

text \<open>
  \<^verbatim>\<open>table("obs.ms", readonly=False)\<close> opens with \<^verbatim>\<open>nomodify=True\<close>; passing
  \<^verbatim>\<open>nomodify=False\<close> raises.
\<close>

theorem table_init_read_only_witness:
  "table_init (default_table_init_args\<lparr>tablename := ''obs.ms'', readonly := False\<rparr>)
     = Inr \<lparr>open_tablename = ''obs.ms'', open_lockoptions = [], open_nomodify = True,
            open_kwargs = []\<rparr>
   \<and> table_init (default_table_init_args\<lparr>kwargs := [(''nomodify'', PyBool False)]\<rparr>)
     = Inl TypeError
   \<and> wrap_table ''query result''
     = Inr \<lparr>open_tablename = [], open_lockoptions = [], open_nomodify = True,
            open_kwargs = [(''swig_object'', PyObj ''query result'')]\<rparr>"
  using table_init_read_only [where
      args = "default_table_init_args\<lparr>tablename := ''obs.ms'', readonly := False\<rparr>"
      and call = "\<lparr>open_tablename = ''obs.ms'', open_lockoptions = [], open_nomodify = True,
            open_kwargs = []\<rparr>"
      and obj = "''query result''"]
  by (simp add: table_init_def default_table_init_args_def wrap_table_def)

section \<open>The coordinate system view\<close>

lemma map_result_Inr: "(map_result f xs = Inr ys) = (map f xs = map Inr ys)"
proof (induction xs arbitrary: ys)
  case Nil
  then show ?case by auto
next
  case (Cons x xs)
  show ?case
  proof (cases "f x")
    case (Inl e)
    then show ?thesis by (cases ys) auto
  next
    case (Inr y)
    show ?thesis
    proof (cases "map_result f xs")
      case (Inl e)
      with Cons [of "tl ys"] Inr show ?thesis by (cases ys) auto
    next
      case r: (Inr zs)
      with Cons [of zs] Cons [of "tl ys"] Inr show ?thesis by (cases ys) auto
    qed
  qed
qed

lemma py_index_in_range:
  "0 \<le> i \<Longrightarrow> nat i < length xs \<Longrightarrow> py_index xs i = Inr (xs ! nat i)"
  by (simp add: py_index_def)

lemma map_result_py_index:
  "\<forall>i \<in> set inds. 0 \<le> i \<and> nat i < length xs \<Longrightarrow>
   map_result (py_index xs) inds = Inr (map (\<lambda>i. xs ! nat i) inds)"
  by (induction inds) (simp_all add: py_index_in_range)


lemma axes_entry_value:
  assumes "cs_findcoordinate cs t = Inr (Some inds)"
    and "\<forall>i \<in> set inds. 0 \<le> i \<and> nat i < length names"
    and "t = ''spectral'' \<longrightarrow> inds \<noteq> []"
  shows "axes_entry cs names t =
     Inr (if t = ''spectral'' then PyStr (names ! nat (last inds))
          else PyList (map (\<lambda>i. PyStr (names ! nat i)) (rev inds)))"
proof -
  have m: "map_result (py_index names) (rev inds) = Inr (map (\<lambda>i. names ! nat i) (rev inds))"
    using assms(2) by (intro map_result_py_index) simp
  show ?thesis
  proof (cases "t = ''spectral''")
    case True
    with assms(3) have ne: "inds \<noteq> []" by simp
    then have "py_index (map (\<lambda>i. names ! nat i) (rev inds)) 0 = Inr (names ! nat (last inds))"
      by (simp add: py_index_def nth_map rev_nth last_conv_nth)
    with True m assms(1) show ?thesis
      by (simp add: axes_entry_def)
  next
    case False
    with m assms(1) show ?thesis
      by (simp add: axes_entry_def comp_def)
  qed
qed

text \<open>
  Claim C9. Let the engine answer: \<^verbatim>\<open>names()\<close> with the axis names, \<^verbatim>\<open>coordinatetype()\<close>
  with the coordinate types, and \<^verbatim>\<open>findcoordinate\<close>, for every coordinate type of the
  system (under its lower-cased name), with pixel axes that are indices into the axis
  names, at least one of them for the spectral type. Then \<^verbatim>\<open>get_axes\<close> returns one
  entry per coordinate type, in reversed type order: for \<^verbatim>\<open>spectral\<close> the name of the
  axis itself (of the last pixel axis of that type, a string), for every other type the
  list of the names of its axes in reversed axis order.
\<close>

theorem get_axes_by_type:
  assumes "cs_names cs = Inr names"
    and "cs_coordinatetype cs = Inr types"
    and "\<forall>t \<in> set types.
             cs_findcoordinate cs (str_lower t) = Inr (Some (pixel (str_lower t)))
             \<and> (\<forall>i \<in> set (pixel (str_lower t)). 0 \<le> i \<and> nat i < length names)
             \<and> (str_lower t = ''spectral'' \<longrightarrow> pixel (str_lower t) \<noteq> [])"
  shows "get_axes cs =
     Inr (PyList (map (\<lambda>t. if t = ''spectral''
                            then PyStr (names ! nat (last (pixel t)))
                            else PyList (map (\<lambda>i. PyStr (names ! nat i)) (rev (pixel t))))
                      (map str_lower (rev types))))"
proof -
  let ?entry = "\<lambda>t. if t = ''spectral''
                            then PyStr (names ! nat (last (pixel t)))
                            else PyList (map (\<lambda>i. PyStr (names ! nat i)) (rev (pixel t)))"
  define tys where "tys = map str_lower (rev types)"
  have "map (axes_entry cs names) tys = map Inr (map ?entry tys)"
    unfolding map_map
  proof (rule map_cong [OF refl])
    fix t assume "t \<in> set tys"
    then obtain t0 where t0: "t0 \<in> set types" and t: "t = str_lower t0"
      by (auto simp: tys_def)
    from assms(3) t0 t have
      "cs_findcoordinate cs t = Inr (Some (pixel t))"
      "\<forall>i \<in> set (pixel t). 0 \<le> i \<and> nat i < length names"
      "t = ''spectral'' \<longrightarrow> pixel t \<noteq> []"
      by auto
    from axes_entry_value [OF this]
    show "axes_entry cs names t = (Inr \<circ> ?entry) t"
      by simp
  qed
  then have "map_result (axes_entry cs names) tys = Inr (map ?entry tys)"
    by (simp only: map_result_Inr)
  then show ?thesis
    using assms(1,2) by (simp add: get_axes_def get_names_def tys_def)
qed

text \<open>A direction, a Stokes and a spectral coordinate over four axes.\<close>

theorem get_axes_by_type_witness:
  "get_axes \<lparr>cs_names = Inr [''Right Ascension'', ''Declination'', ''Stokes'', ''Frequency''],
      cs_coordinatetype = Inr [''Direction'', ''Stokes'', ''Spectral''],
      cs_findcoordinate = (\<lambda>t. if t = ''direction'' then Inr (Some [0, 1])
         else if t = ''stokes'' then Inr (Some [2])
         else if t = ''spectral'' then Inr (Some [3]) else Inr None)\<rparr>
   = Inr (PyList [PyStr ''Frequency'', PyList [PyStr ''Stokes''],
                  PyList [PyStr ''Declination'', PyStr ''Right Ascension'']])"
proof -
  have lower: "str_lower ''Direction'' = ''direction''" "str_lower ''Stokes'' = ''stokes''"
    "str_lower ''Spectral'' = ''spectral''"
    by code_simp+
  show ?thesis
    using get_axes_by_type [where
      cs = "\<lparr>cs_names = Inr [''Right Ascension'', ''Declination'', ''Stokes'', ''Frequency''],
        cs_coordinatetype = Inr [''Direction'', ''Stokes'', ''Spectral''],
        cs_findcoordinate = (\<lambda>t. if t = ''direction'' then Inr (Some [0, 1])
           else if t = ''stokes'' then Inr (Some [2])
           else if t = ''spectral'' then Inr (Some [3]) else Inr None)\<rparr>"
      and names = "[''Right Ascension'', ''Declination'', ''Stokes'', ''Frequency'']"
      and types = "[''Direction'', ''Stokes'', ''Spectral'']"
      and pixel = "\<lambda>t. if t = ''direction'' then [0, 1]
           else if t = ''stokes'' then [2] else [3]"]
    by (simp add: lower)
qed

section \<open>Queries on a table\<close>

lemma rmtree_removes: "path \<notin> set (fs_dirs (snd (rmtree path w)))"
  by (simp add: rmtree_def)

lemma taql_closed_source:
  assumes "\<not> eng_isopened eng name w"
    and "eng_copy eng name (name @ ''_copy'') w = (Inr (), w1)"
    and "eng_taql eng (name @ ''_copy'')
           (py_replace ''$gtable'' (name @ ''_copy'')
              (py_replace ''$mtable'' (name @ ''_copy'') taqlcommand)) w1 = (res, w2)"
  shows "taql eng name taqlcommand w =
     (case res of
        Inl e \<Rightarrow> (Inl e, w2)
      | Inr t \<Rightarrow>
          (case rmtree (name @ ''_copy'') (eng_close eng (name @ ''_copy'') w2) of
             (Inl e, w3) \<Rightarrow> (Inl e, w3)
           | (Inr u, w3) \<Rightarrow> (Inr (PyObj t), w3)))"
  using assms by (simp add: taql_def Let_def split: sum.splits prod.splits)

text \<open>
  The path on which the copy is removed. The source handle is not open, the engine
  makes the shallow copy \<^verbatim>\<open>name_copy\<close>, and the query, with both placeholders replaced
  by the copy's name, runs against the copy. If the query returns, the copy is closed
  and \<^verbatim>\<open>rmtree\<close> runs on its path: when \<^verbatim>\<open>taql\<close> is left, by the result table or by
  \<^verbatim>\<open>rmtree\<close>'s own error, no directory of that name exists. If the query raises, the
  exception leaves \<^verbatim>\<open>taql\<close> at once: the world is as the query left it, with no close
  and no removal.
\<close>

lemma taql_cleanup_on_success:
  assumes "\<not> eng_isopened eng name w"
    and "eng_copy eng name (name @ ''_copy'') w = (Inr (), w1)"
    and "eng_taql eng (name @ ''_copy'')
           (py_replace ''$gtable'' (name @ ''_copy'')
              (py_replace ''$mtable'' (name @ ''_copy'') taqlcommand)) w1 = (res, w2)"
  shows "(\<forall>t. res = Inr t \<longrightarrow>
            snd (table_taql eng name taqlcommand w)
              = snd (rmtree (name @ ''_copy'') (eng_close eng (name @ ''_copy'') w2))
            \<and> name @ ''_copy'' \<notin> set (fs_dirs (snd (table_taql eng name taqlcommand w)))
            \<and> (fst (table_taql eng name taqlcommand w) = Inr (PyObj t)
                \<or> fst (table_taql eng name taqlcommand w) = Inl FileNotFoundError))
       \<and> (\<forall>e. res = Inl e \<longrightarrow> table_taql eng name taqlcommand w = (Inl e, w2))"
proof (intro conjI allI impI)
  fix e assume "res = Inl e"
  with taql_closed_source [OF assms] show "table_taql eng name taqlcommand w = (Inl e, w2)"
    by (simp add: table_taql_def method_wrapper_def)
next
  fix t assume r: "res = Inr t"
  let ?w3 = "eng_close eng (name @ ''_copy'') w2"
  from taql_closed_source [OF assms] r
  have t: "taql eng name taqlcommand w =
     (case rmtree (name @ ''_copy'') ?w3 of
             (Inl e, w3) \<Rightarrow> (Inl e, w3)
           | (Inr u, w3) \<Rightarrow> (Inr (PyObj t), w3))"
    by simp
  then show s: "snd (table_taql eng name taqlcommand w) = snd (rmtree (name @ ''_copy'') ?w3)"
    by (simp add: table_taql_def method_wrapper_def split: prod.splits sum.splits)
  show "name @ ''_copy'' \<notin> set (fs_dirs (snd (table_taql eng name taqlcommand w)))"
    by (simp only: s rmtree_removes not_False_eq_True)
  from t show "fst (table_taql eng name taqlcommand w) = Inr (PyObj t)
                \<or> fst (table_taql eng name taqlcommand w) = Inl FileNotFoundError"
    by (auto simp: table_taql_def method_wrapper_def rmtree_def split: prod.splits sum.splits if_splits)
qed

text \<open>
  When the engine refuses to make the copy, its exception leaves \<^verbatim>\<open>taql\<close> before any
  query is made, and the world is as the failed copy left it.
\<close>

lemma taql_copy_fails:
  assumes "\<not> eng_isopened eng name w"
    and "eng_copy eng name (name @ ''_copy'') w = (Inl e, w1)"
  shows "table_taql eng name taqlcommand w = (Inl e, w1)"
  using assms by (simp add: table_taql_def taql_def method_wrapper_def Let_def)

text \<open>A query that succeeds on the closed table \<^verbatim>\<open>obs.ms\<close>: the copy is gone afterwards.\<close>

lemma taql_success_example:
  "\<not> eng_isopened (simple_engine (\<lambda>q. Inr q)) ''obs.ms'' \<lparr>fs_dirs = [''obs.ms''], open_tables = []\<rparr>
   \<and> table_taql (simple_engine (\<lambda>q. Inr q)) ''obs.ms'' ''SELECT FROM $mtable''
        \<lparr>fs_dirs = [''obs.ms''], open_tables = []\<rparr>
     = (Inr (PyObj ''SELECT FROM obs.ms_copy''), \<lparr>fs_dirs = [''obs.ms''], open_tables = []\<rparr>)
   \<and> ''obs.ms_copy'' \<notin> set (fs_dirs (snd
        (table_taql (simple_engine (\<lambda>q. Inr q)) ''obs.ms'' ''SELECT FROM $mtable''
           \<lparr>fs_dirs = [''obs.ms''], open_tables = []\<rparr>)))"
proof -
  have q: "py_replace ''$gtable'' ''obs.ms_copy''
             (py_replace ''$mtable'' ''obs.ms_copy'' ''SELECT FROM $mtable'')
           = ''SELECT FROM obs.ms_copy''"
    by code_simp
  show ?thesis
    using taql_cleanup_on_success [where eng = "simple_engine (\<lambda>q. Inr q)" and name = "''obs.ms''"
        and w = "\<lparr>fs_dirs = [''obs.ms''], open_tables = []\<rparr>"
        and ?w1.0 = "\<lparr>fs_dirs = [''obs.ms_copy'', ''obs.ms''], open_tables = [''obs.ms_copy'']\<rparr>"
        and taqlcommand = "''SELECT FROM $mtable''"
        and res = "Inr ''SELECT FROM obs.ms_copy''"
        and ?w2.0 = "\<lparr>fs_dirs = [''obs.ms_copy'', ''obs.ms''], open_tables = [''obs.ms_copy'']\<rparr>"]
    by (simp add: simple_engine_def q rmtree_def table_taql_def taql_def method_wrapper_def)
qed

text \<open>
  Claim C4, at the input where the code departs from it. The handle of \<^verbatim>\<open>obs.ms\<close> is
  not open, the engine makes the copy \<^verbatim>\<open>obs.ms_copy\<close>, and the query is one the engine
  rejects. The exception leaves \<^verbatim>\<open>taql\<close> at the engine call of line 216, so the
  \<^verbatim>\<open>close()\<close> and the \<^verbatim>\<open>shutil.rmtree\<close> of lines 217-219 never run: after the call the
  caller holds the engine's error, and the temporary copy is still open and still on
  disk.
\<close>

theorem taql_failed_query_leaves_copy:
  "table_taql (simple_engine (\<lambda>q. Inl RuntimeError)) ''obs.ms'' ''SELECT FROM $mtable''
        \<lparr>fs_dirs = [''obs.ms''], open_tables = []\<rparr>
     = (Inl RuntimeError,
        \<lparr>fs_dirs = [''obs.ms_copy'', ''obs.ms''], open_tables = [''obs.ms_copy'']\<rparr>)
   \<and> ''obs.ms_copy'' \<in> set (fs_dirs (snd
        (table_taql (simple_engine (\<lambda>q. Inl RuntimeError)) ''obs.ms'' ''SELECT FROM $mtable''
           \<lparr>fs_dirs = [''obs.ms''], open_tables = []\<rparr>)))"
  by (simp add: simple_engine_def table_taql_def taql_def method_wrapper_def Let_def)

section \<open>Views over a closed handle\<close>














section \<open>Column shapes as text\<close>

text \<open>The reader accepts Python's own rendering of a list of integers and gives the list back.\<close>

lemma digit_char_props:
  assumes "d < 10"
  shows "is_digit (digit_char d) \<and> digit_val (digit_char d) = d \<and> \<not> is_space (digit_char d)
     \<and> digit_char d \<noteq> CHR '']'' \<and> digit_char d \<noteq> CHR '','' \<and> digit_char d \<noteq> CHR ''-''
     \<and> digit_char d \<noteq> CHR ''['' \<and> (digit_char d = CHR ''0'') = (d = 0)"
proof -
  from assms have "d = 0 \<or> d = 1 \<or> d = 2 \<or> d = 3 \<or> d = 4 \<or> d = 5 \<or> d = 6 \<or> d = 7 \<or> d = 8 \<or> d = 9"
    by arith
  then show ?thesis
    by (elim disjE; hypsubst; code_simp)
qed

lemma lit_step_digit_item:
  "d < 10 \<Longrightarrow> lit_step (digit_char d) (LitItem acc) = LitNumber False (d = 0) d acc"
  using digit_char_props [of d] by simp

lemma lit_step_digit_sign:
  "d < 10 \<Longrightarrow> lit_step (digit_char d) (LitSign acc) = LitNumber True (d = 0) d acc"
  using digit_char_props [of d] by simp

lemma lit_step_digit_number:
  "d < 10 \<Longrightarrow> lit_step (digit_char d) (LitNumber neg False v acc) = LitNumber neg False (10 * v + d) acc"
  using digit_char_props [of d] by simp

lemma fold_str_nat:
  "st = LitItem acc \<or> st = LitSign acc \<Longrightarrow>
   fold lit_step (str_nat n) st = LitNumber (st = LitSign acc) (n = 0) n acc"
proof (induction n rule: str_nat.induct)
  case (1 n)
  show ?case
  proof (cases "n < 10")
    case True
    with 1(2) show ?thesis
      by (auto simp: str_nat.simps [of n] lit_step_digit_item lit_step_digit_sign
          simp del: lit_step.simps)
  next
    case False
    then have "n div 10 \<noteq> 0" "n mod 10 < 10" "n \<noteq> 0" by auto
    with False 1 show ?thesis
      by (auto simp: str_nat.simps [of n] lit_step_digit_number simp del: lit_step.simps)
  qed
qed

lemma fold_str_int:
  "fold lit_step (str_int i) (LitItem acc) = LitNumber (i < 0) (i = 0) (nat \<bar>i\<bar>) acc"
proof (cases "i < 0")
  case True
  have "lit_step CHR ''-'' (LitItem acc) = LitSign acc"
    by code_simp
  with True show ?thesis
    using fold_str_nat [of "LitSign acc" acc "nat (- i)"]
    by (simp add: str_int_def del: lit_step.simps)
next
  case False
  then show ?thesis
    using fold_str_nat [of "LitItem acc" acc "nat i"]
    by (simp add: str_int_def del: lit_step.simps)
qed

lemma push_number_abs: "push_number (i < 0) (nat \<bar>i\<bar>) acc = i # acc"
  by (simp add: push_number_def)

lemma lit_step_after_number:
  "lit_step CHR '','' (LitNumber neg z v acc) = LitItem (push_number neg v acc)"
  "lit_step CHR '']'' (LitNumber neg z v acc) = LitDone (push_number neg v acc)"
  "lit_step CHR '' '' (LitItem acc) = LitItem acc"
  "lit_step CHR '']'' (LitItem acc) = LitDone acc"
  "lit_step CHR ''['' LitStart = LitItem []"
proof -
  have c: "\<not> is_digit CHR '',''" "\<not> is_space CHR '',''" "\<not> is_digit CHR '']''"
    "\<not> is_space CHR '']''" "is_space CHR '' ''" "\<not> is_space CHR ''[''"
    by code_simp+
  show "lit_step CHR '','' (LitNumber neg z v acc) = LitItem (push_number neg v acc)"
    "lit_step CHR '']'' (LitNumber neg z v acc) = LitDone (push_number neg v acc)"
    "lit_step CHR '' '' (LitItem acc) = LitItem acc"
    "lit_step CHR '']'' (LitItem acc) = LitDone acc"
    "lit_step CHR ''['' LitStart = LitItem []"
    using c by simp_all
qed

lemma fold_join_comma:
  "xs \<noteq> [] \<Longrightarrow>
   fold lit_step (join_comma (map str_int xs)) (LitItem acc)
     = LitNumber (last xs < 0) (last xs = 0) (nat \<bar>last xs\<bar>) (rev (butlast xs) @ acc)"
proof (induction xs arbitrary: acc rule: induct_list012)
  case 1
  then show ?case by simp
next
  case (2 x)
  then show ?case by (simp add: fold_str_int del: lit_step.simps)
next
  case (3 x y zs)
  from 3(2) [of "x # acc"] show ?case
    by (simp add: fold_str_int lit_step_after_number push_number_abs del: lit_step.simps)
qed

lemma literal_eval_str_int_list: "literal_eval_ints (str_int_list xs) = Inr xs"
proof (cases "xs = []")
  case True
  then show ?thesis
    by (simp add: literal_eval_ints_def str_int_list_def lit_step_after_number
        del: lit_step.simps)
next
  case False
  have "rev (butlast xs @ [last xs]) = last xs # rev (butlast xs)" by simp
  with append_butlast_last_id [OF False]
  have r: "rev xs = last xs # rev (butlast xs)" by simp
  from fold_join_comma [OF False, of "[]"] False show ?thesis
    by (simp add: literal_eval_ints_def str_int_list_def lit_step_after_number push_number_abs
        del: lit_step.simps)
qed

text \<open>
  Claim C8. When the engine returns the texts of the per-cell shapes and each text
  denotes the shape at its place, \<^verbatim>\<open>getcolshapestring\<close> returns one text per entry, in
  the same order: the list literal of that shape with the axes reversed, in Python's
  rendering of a list.
\<close>

theorem getcolshapestring_reverses:
  assumes "raw args s = (Inr texts, s')"
    and "map ev texts = map Inr shapes"
  shows "table_getcolshapestring ev raw args s =
           (Inr (PyList (map (\<lambda>dims. PyStr (str_int_list (rev dims))) shapes)), s')"
proof -
  let ?f = "\<lambda>shape. case ev shape of
                       Inl e \<Rightarrow> Inl e
                     | Inr dims \<Rightarrow> Inr (PyStr (str_int_list (rev dims)))"
  let ?g = "\<lambda>dims. PyStr (str_int_list (rev dims))"
  from assms(2) have "map ?f texts = map Inr (map ?g shapes)"
  proof (induction texts arbitrary: shapes)
    case Nil
    then show ?case by simp
  next
    case (Cons t ts)
    then obtain d ds where "shapes = d # ds" by (cases shapes) auto
    with Cons show ?case by auto
  qed
  then have "map_result ?f texts = Inr (map ?g shapes)"
    by (simp only: map_result_Inr)
  with assms(1) show ?thesis
    by (simp add: table_getcolshapestring_def getcolshapestring_def method_wrapper_def comp_def)
qed

text \<open>The native shape \<open>[5,10]\<close> comes back as the text \<^verbatim>\<open>[10, 5]\<close>.\<close>

theorem getcolshapestring_reverses_witness:
  "table_getcolshapestring literal_eval_ints (\<lambda>args s. (Inr [''[5,10]'', ''[4, 64]'', ''[]''], s)) () ()
     = (Inr (PyList [PyStr ''[10, 5]'', PyStr ''[64, 4]'', PyStr ''[]'']), ())"
proof -
  have ev: "map literal_eval_ints [''[5,10]'', ''[4, 64]'', ''[]''] = map Inr [[5, 10], [4, 64], []]"
    by code_simp
  have st: "str_int_list [10, 5] = ''[10, 5]''" "str_int_list [64, 4] = ''[64, 4]''"
    "str_int_list [] = ''[]''"
    by code_simp+
  show ?thesis
    using getcolshapestring_reverses [where ev = literal_eval_ints
        and raw = "\<lambda>args s. (Inr [''[5,10]'', ''[4, 64]'', ''[]''], s)"
        and args = "()" and s = "()" and s' = "()"
        and texts = "[''[5,10]'', ''[4, 64]'', ''[]'']"
        and shapes = "[[5, 10], [4, 64], []]", OF _ ev]
    by (simp add: st)
qed

section \<open>The image facade\<close>

lemma for_each_success:
  "(\<And>x st. x \<in> set xs \<Longrightarrow> f x st = Inr (g x st)) \<Longrightarrow> for_each f xs st = Inr (fold g xs st)"
  by (induction xs arbitrary: st) simp_all

lemma fold_setitem_other:
  "k \<notin> kf ` set xs \<Longrightarrow>
   map_of (fold (\<lambda>x d. dict_setitem d (kf x) (vf x)) xs st) k = map_of st k"
  by (induction xs arbitrary: st) (auto simp: map_of_dict_setitem)

lemma fold_setitem_key:
  "inj_on kf (set xs) \<Longrightarrow> x \<in> set xs \<Longrightarrow>
   map_of (fold (\<lambda>x d. dict_setitem d (kf x) (vf x)) xs st) (kf x) = Some (vf x)"
proof (induction xs arbitrary: st)
  case Nil
  then show ?case by simp
next
  case (Cons y ys)
  show ?case
  proof (cases "x \<in> set ys")
    case True
    from Cons.prems(1) have "inj_on kf (set ys)" by (simp add: inj_on_def)
    from Cons.IH [OF this True] show ?thesis by simp
  next
    case False
    with Cons.prems(2) have xy: "x = y" by simp
    have "kf x \<notin> kf ` set ys"
    proof
      assume "kf x \<in> kf ` set ys"
      then obtain z where z: "z \<in> set ys" "kf z = kf x" by auto
      with Cons.prems(1) xy have "z = x" by (auto simp: inj_on_def)
      with z False show False by simp
    qed
    from fold_setitem_other [OF this, of vf "dict_setitem st (kf y) (vf y)"] xy show ?thesis
      by (simp add: map_of_dict_setitem)
  qed
qed

lemma fold_setitem_distinct:
  "distinct (map fst st) \<Longrightarrow>
   distinct (map fst (fold (\<lambda>x d. dict_setitem d (kf x) (vf x)) xs st))"
  by (induction xs arbitrary: st) (simp_all add: distinct_dict_setitem)

lemma fold_nested_product:
  "fold (\<lambda>c. fold (h c) ps) cs st = fold (\<lambda>(c, p). h c p) (List.product cs ps) st"
  by (induction cs arbitrary: st) (simp_all add: fold_map comp_def)

lemma dict_update_other:
  "k \<notin> fst ` set e \<Longrightarrow> map_of (dict_update d e) k = map_of d k"
  using fold_setitem_other [of k fst e snd d]
  by (simp add: dict_update_def case_prod_unfold)

lemma dict_update_key:
  "distinct (map fst e) \<Longrightarrow> map_of e k = Some v \<Longrightarrow> map_of (dict_update d e) k = Some v"
  using fold_setitem_key [of fst e "(k, v)" snd d]
  by (auto simp: dict_update_def case_prod_unfold distinct_map dest: map_of_SomeD)

lemma map_of_dict_pop: "map_of (dict_pop d k) k' = (if k' = k then None else map_of d k')"
  by (induction d) (auto simp: dict_pop_def)

lemma digit_char_inj: "a < 10 \<Longrightarrow> b < 10 \<Longrightarrow> digit_char a = digit_char b \<Longrightarrow> a = b"
  using digit_char_props [of a] digit_char_props [of b] by metis

lemma str_nat_nonempty: "str_nat n \<noteq> []"
  by (subst str_nat.simps) simp

lemma str_nat_inj: "str_nat m = str_nat n \<Longrightarrow> m = n"
proof (induction m arbitrary: n rule: str_nat.induct)
  case (1 m)
  show ?case
  proof (cases "m < 10")
    case m: True
    show ?thesis
    proof (cases "n < 10")
      case True
      with m 1(2) show ?thesis
        by (simp add: str_nat.simps [of m] str_nat.simps [of n] digit_char_inj)
    next
      case False
      with m 1(2) str_nat_nonempty [of "n div 10"] show ?thesis
        by (simp add: str_nat.simps [of m] str_nat.simps [of n] Cons_eq_append_conv)
    qed
  next
    case m: False
    show ?thesis
    proof (cases "n < 10")
      case True
      with m 1(2) str_nat_nonempty [of "m div 10"] show ?thesis
        by (simp add: str_nat.simps [of m] str_nat.simps [of n] append_eq_Cons_conv)
    next
      case False
      with m 1(2) have e: "str_nat (m div 10) = str_nat (n div 10)"
        and d: "digit_char (m mod 10) = digit_char (n mod 10)"
        by (simp_all add: str_nat.simps [of m] str_nat.simps [of n])
      from 1(1) [OF m e] have "m div 10 = n div 10" .
      moreover from d have "m mod 10 = n mod 10"
        by (intro digit_char_inj) simp_all
      ultimately show ?thesis
        by (metis div_mult_mod_eq)
    qed
  qed
qed

lemma beam_key_inj:
  "inj_on (beam_key nchan) (set (List.product [0..<nat nchan] ps))"
proof (rule inj_onI)
  fix x y
  assume x: "x \<in> set (List.product [0..<nat nchan] ps)"
    and y: "y \<in> set (List.product [0..<nat nchan] ps)"
    and k: "beam_key nchan x = beam_key nchan y"
  obtain c p where xp: "x = (c, p)" by (cases x)
  obtain c' p' where yp: "y = (c', p')" by (cases y)
  from x y xp yp have c: "c < nat nchan" "c' < nat nchan" by auto
  then have pos: "0 < nchan" by simp
  have nn: "0 \<le> nchan * int p + int c" "0 \<le> nchan * int p' + int c'"
    using pos by simp_all
  from k xp yp nn have "str_nat (nat (nchan * int p + int c)) = str_nat (nat (nchan * int p' + int c'))"
    by (simp add: beam_key_def str_int_def)
  then have "nat (nchan * int p + int c) = nat (nchan * int p' + int c')"
    by (rule str_nat_inj)
  with nn have eq: "nchan * int p + int c = nchan * int p' + int c'" by simp
  have "(nchan * int p + int c) div nchan = int p" "(nchan * int p + int c) mod nchan = int c"
    "(nchan * int p' + int c') div nchan = int p'" "(nchan * int p' + int c') mod nchan = int c'"
    using c pos by simp_all
  with eq have "int p = int p'" "int c = int c'" by metis+
  with xp yp show "x = y" by simp
qed

lemma beam_key_not_plain:
  "hd k \<noteq> CHR ''*'' \<Longrightarrow> k \<notin> beam_key nchan ` S"
  by (auto simp: beam_key_def)

lemma beam_loop:
  assumes "\<forall>c < nat nchan. \<forall>p < nat npol. \<exists>row.
             map_of beams (''*'' @ str_nat c) = Some (PyDict row)
             \<and> map_of row (''*'' @ str_nat p) = Some (b c p)"
  shows "for_each
           (\<lambda>c flat. case py_int (PyInt npol) of
                        Inl e \<Rightarrow> Inl e
                      | Inr npol \<Rightarrow>
                          for_each (beam_entry (PyDict beams) nchan c) (range_stop npol) flat)
           (range_stop nchan) [] = Inr (flat_beams nchan npol b)"
proof -
  let ?h = "\<lambda>c p d. dict_setitem d (beam_key nchan (c, p)) (b c p)"
  have entry: "beam_entry (PyDict beams) nchan c p flat = Inr (?h c p flat)"
    if "c < nat nchan" "p < nat npol" for c p flat
  proof -
    from assms that obtain row where
      "map_of beams (''*'' @ str_nat c) = Some (PyDict row)"
      "map_of row (''*'' @ str_nat p) = Some (b c p)"
      by blast
    then show ?thesis
      by (simp add: beam_entry_def py_getitem_def beam_key_def)
  qed
  have inner: "for_each (beam_entry (PyDict beams) nchan c) (range_stop npol) flat
      = Inr (fold (?h c) [0..<nat npol] flat)" if "c < nat nchan" for c flat
    unfolding range_stop_def
    by (rule for_each_success) (use that entry in auto)
  have "for_each
           (\<lambda>c flat. case py_int (PyInt npol) of
                        Inl e \<Rightarrow> Inl e
                      | Inr npol \<Rightarrow>
                          for_each (beam_entry (PyDict beams) nchan c) (range_stop npol) flat)
           (range_stop nchan) []
        = Inr (fold (\<lambda>c. fold (?h c) [0..<nat npol]) [0..<nat nchan] [])"
    unfolding range_stop_def
    by (rule for_each_success) (use inner in \<open>auto simp: py_int_def range_stop_def\<close>)
  also have "fold (\<lambda>c. fold (?h c) [0..<nat npol]) [0..<nat nchan] [] = flat_beams nchan npol b"
    by (simp add: fold_nested_product flat_beams_def case_prod_unfold)
  finally show ?thesis .
qed

lemma flat_beams_key:
  "c < nat nchan \<Longrightarrow> p < nat npol \<Longrightarrow>
   map_of (flat_beams nchan npol b) (''*'' @ str_int (nchan * int p + int c)) = Some (b c p)"
  using fold_setitem_key [OF beam_key_inj, of "(c, p)" nchan "[0..<nat npol]"
      "\<lambda>cp. b (fst cp) (snd cp)" "[]"]
  by (simp add: flat_beams_def beam_key_def)

lemma flat_beams_other:
  "hd k \<noteq> CHR ''*'' \<Longrightarrow> map_of (flat_beams nchan npol b) k = None"
  using fold_setitem_other [where k = k and kf = "beam_key nchan"
      and xs = "List.product [0..<nat nchan] [0..<nat npol]"
      and vf = "\<lambda>cp. b (fst cp) (snd cp)" and st = "[]", OF beam_key_not_plain]
  by (simp add: flat_beams_def)

lemma flat_beams_distinct: "distinct (map fst (flat_beams nchan npol b))"
  unfolding flat_beams_def by (rule fold_setitem_distinct) simp

lemma flatten_multibeam_result:
  assumes "map_of imageinfo ''perplanebeams'' = Some (PyDict ppb)"
    and "map_of ppb ''beams'' = Some (PyDict beams)"
    and "map_of ppb ''nChannels'' = Some (PyInt nchan)"
    and "map_of ppb ''nStokes'' = Some (PyInt npol)"
    and "\<forall>c < nat nchan. \<forall>p < nat npol. \<exists>row.
             map_of beams (''*'' @ str_nat c) = Some (PyDict row)
             \<and> map_of row (''*'' @ str_nat p) = Some (b c p)"
  shows "flatten_multibeam imageinfo =
           Inr (dict_setitem imageinfo ''perplanebeams''
                  (PyDict (dict_update (dict_pop ppb ''beams'') (flat_beams nchan npol b))))"
  using assms(1-4) beam_loop [OF assms(5)]
  by (simp add: flatten_multibeam_def py_getitem_def py_int_def)

lemma flattened_lookup:
  "map_of (dict_update (dict_pop ppb ''beams'') (flat_beams nchan npol b)) ''beams'' = None"
  "c < nat nchan \<Longrightarrow> p < nat npol \<Longrightarrow>
   map_of (dict_update (dict_pop ppb ''beams'') (flat_beams nchan npol b))
     (''*'' @ str_int (nchan * int p + int c)) = Some (b c p)"
  "hd k \<noteq> CHR ''*'' \<Longrightarrow> k \<noteq> ''beams'' \<Longrightarrow>
   map_of (dict_update (dict_pop ppb ''beams'') (flat_beams nchan npol b)) k = map_of ppb k"
proof -
  have none: "k \<notin> fst ` set (flat_beams nchan npol b)" if "hd k \<noteq> CHR ''*''" for k
    using flat_beams_other [OF that, of nchan npol b] by (simp add: map_of_eq_None_iff)
  show "map_of (dict_update (dict_pop ppb ''beams'') (flat_beams nchan npol b)) ''beams'' = None"
    using none [of "''beams''"] by (simp add: dict_update_other map_of_dict_pop)
  show "map_of (dict_update (dict_pop ppb ''beams'') (flat_beams nchan npol b))
     (''*'' @ str_int (nchan * int p + int c)) = Some (b c p)"
    if "c < nat nchan" "p < nat npol"
    by (rule dict_update_key [OF flat_beams_distinct flat_beams_key [OF that]])
  show "map_of (dict_update (dict_pop ppb ''beams'') (flat_beams nchan npol b)) k = map_of ppb k"
    if "hd k \<noteq> CHR ''*''" "k \<noteq> ''beams''"
    using none [OF that(1)] that(2) by (simp add: dict_update_other map_of_dict_pop)
qed

lemma recursive_transpose_no_arrays: "arrays_of v = [] \<Longrightarrow> recursive_transpose v = v"
proof (induction v rule: recursive_transpose.induct)
  case (2 items)
  then have "map recursive_transpose items = items"
    by (intro map_idI) auto
  then show ?case by simp
next
  case (3 kvs)
  have "map (\<lambda>(key, v). (key, recursive_transpose v)) kvs = kvs"
  proof (rule map_idI)
    fix x assume x: "x \<in> set kvs"
    with 3(2) have "arrays_of (snd x) = []" by (auto simp: case_prod_unfold)
    with 3(1) [OF x, of "fst x" "snd x"] show "(case x of (key, v) \<Rightarrow> (key, recursive_transpose v)) = x"
      by (simp add: case_prod_unfold)
  qed
  then show ?case by simp
qed simp_all

lemma map_of_recursive_transpose_items:
  "map_of (map (\<lambda>(key, v). (key, recursive_transpose v)) kvs) k
     = map_option recursive_transpose (map_of kvs k)"
  by (induction kvs) auto

text \<open>
  Claim C5. Let the engine's summary hold \<^verbatim>\<open>perplanebeams\<close> with \<^verbatim>\<open>nChannels\<close>,
  \<^verbatim>\<open>nStokes\<close> and under \<^verbatim>\<open>beams\<close>, for every channel \<open>c\<close> and polarization \<open>p\<close>, a
  beam \<^verbatim>\<open>beams['*c']['*p']\<close> (a record of quantities: it holds no array). Then
  \<^verbatim>\<open>info()\<close> returns its three entries, and in \<^verbatim>\<open>imageinfo\<close> the dict under
  \<^verbatim>\<open>perplanebeams\<close> has no entry \<^verbatim>\<open>beams\<close> any more, maps the key
  \<^verbatim>\<open>"*" + str(nChannels * p + c)\<close> to that beam for every \<open>c\<close> and \<open>p\<close>, and still
  holds \<^verbatim>\<open>nChannels\<close> and \<^verbatim>\<open>nStokes\<close>.
\<close>

theorem image_info_flattens_beams:
  assumes summary: "raw_summary () s = (Inr (PyDict summary), s1)"
    and coords: "raw_coordsys_torecord () s1 = (Inr coordinates, s2)"
    and misc: "raw_miscinfo () s2 = (Inr miscinfo, s3)"
    and ppb: "map_of summary ''perplanebeams'' = Some (PyDict ppb)"
    and beams: "map_of ppb ''beams'' = Some (PyDict beams)"
    and nchan: "map_of ppb ''nChannels'' = Some (PyInt nchan)"
    and npol: "map_of ppb ''nStokes'' = Some (PyInt npol)"
    and entries: "\<forall>c < nat nchan. \<forall>p < nat npol. \<exists>row.
             map_of beams (''*'' @ str_nat c) = Some (PyDict row)
             \<and> map_of row (''*'' @ str_nat p) = Some (b c p)
             \<and> arrays_of (b c p) = []"
  shows "\<exists>imageinfo flat.
           image_info raw_summary raw_coordsys_torecord raw_miscinfo () s
             = (Inr (PyDict [(''imageinfo'', PyDict imageinfo),
                             (''coordinates'', recursive_transpose coordinates),
                             (''miscinfo'', recursive_transpose (recursive_transpose miscinfo))]), s3)
           \<and> map_of imageinfo ''perplanebeams'' = Some (PyDict flat)
           \<and> map_of flat ''beams'' = None
           \<and> (\<forall>c < nat nchan. \<forall>p < nat npol.
                 map_of flat (''*'' @ str_int (nchan * int p + int c)) = Some (b c p))
           \<and> map_of flat ''nChannels'' = Some (PyInt nchan)
           \<and> map_of flat ''nStokes'' = Some (PyInt npol)"
proof -
  let ?R = "map (\<lambda>(key, v). (key, recursive_transpose v))"
  let ?F1 = "dict_update (dict_pop (?R ppb) ''beams'') (flat_beams nchan npol b)"
  let ?I1 = "dict_setitem (?R summary) ''perplanebeams'' (PyDict ?F1)"
  have fixed: "recursive_transpose (b c p) = b c p" if "c < nat nchan" "p < nat npol" for c p
    using entries that by (auto intro: recursive_transpose_no_arrays)
  have entries': "\<forall>c < nat nchan. \<forall>p < nat npol. \<exists>row.
             map_of (?R beams) (''*'' @ str_nat c) = Some (PyDict row)
             \<and> map_of row (''*'' @ str_nat p) = Some (b c p)"
  proof (intro allI impI)
    fix c p assume cp: "c < nat nchan" "p < nat npol"
    with entries obtain row where
      "map_of beams (''*'' @ str_nat c) = Some (PyDict row)"
      "map_of row (''*'' @ str_nat p) = Some (b c p)"
      by blast
    then have "map_of (?R beams) (''*'' @ str_nat c) = Some (PyDict (?R row))
        \<and> map_of (?R row) (''*'' @ str_nat p) = Some (b c p)"
      using fixed [OF cp] by (simp add: map_of_recursive_transpose_items)
    then show "\<exists>row. map_of (?R beams) (''*'' @ str_nat c) = Some (PyDict row)
             \<and> map_of row (''*'' @ str_nat p) = Some (b c p)"
      by blast
  qed
  have fl: "flatten_multibeam (?R summary) = Inr ?I1"
    by (rule flatten_multibeam_result [OF _ _ _ _ entries'])
      (simp_all add: map_of_recursive_transpose_items ppb beams nchan npol)
  have s0: "image_summary raw_summary () s = (Inr (PyDict (?R summary)), s1)"
    using summary by (simp add: image_summary_def method_wrapper_def)
  have f0: "image_flatten_multibeam (PyDict (?R summary)) s1 = (Inr (PyDict (?R ?I1)), s1)"
    using fl by (simp add: image_flatten_multibeam_def method_wrapper_def)
  have m0: "image_miscinfo raw_miscinfo () s2 = (Inr (recursive_transpose miscinfo), s3)"
    using misc by (simp add: image_miscinfo_def method_wrapper_def)
  have res: "image_info raw_summary raw_coordsys_torecord raw_miscinfo () s
             = (Inr (PyDict [(''imageinfo'', PyDict (?R (?R ?I1))),
                             (''coordinates'', recursive_transpose coordinates),
                             (''miscinfo'', recursive_transpose (recursive_transpose miscinfo))]), s3)"
    using s0 f0 coords m0 by (simp add: image_info_def method_wrapper_def)
  have look: "map_of (?R (?R ?I1)) ''perplanebeams'' = Some (PyDict (?R (?R ?F1)))"
    by (simp add: map_of_recursive_transpose_items map_of_dict_setitem del: map_map)
  have l1: "map_of (?R (?R ?F1)) ''beams'' = None"
    by (simp add: map_of_recursive_transpose_items flattened_lookup(1) del: map_map)
  have l2: "\<forall>c < nat nchan. \<forall>p < nat npol.
      map_of (?R (?R ?F1)) (''*'' @ str_int (nchan * int p + int c)) = Some (b c p)"
  proof (intro allI impI)
    fix c p assume cp: "c < nat nchan" "p < nat npol"
    from flattened_lookup(2) [OF cp, of "?R ppb" b] fixed [OF cp]
    show "map_of (?R (?R ?F1)) (''*'' @ str_int (nchan * int p + int c)) = Some (b c p)"
      by (simp add: map_of_recursive_transpose_items del: map_map)
  qed
  have l3: "map_of (?R (?R ?F1)) ''nChannels'' = Some (PyInt nchan)"
    "map_of (?R (?R ?F1)) ''nStokes'' = Some (PyInt npol)"
    by (simp_all add: map_of_recursive_transpose_items flattened_lookup(3) nchan npol del: map_map)
  from res look l1 l2 l3 show ?thesis by blast
qed

text \<open>
  The example of the spec: 3 channels, 2 polarizations; the key \<^verbatim>\<open>*4\<close> holds the beam
  of channel 1, polarization 1.
\<close>

theorem image_info_flattens_beams_witness:
  "\<exists>imageinfo flat.
     image_info
       (\<lambda>u s. (Inr (PyDict [(''ndim'', PyInt 4),
          (''perplanebeams'', PyDict [
             (''beams'', PyDict [
                (''*0'', PyDict [(''*0'', PyDict [(''major'', PyInt 0)]),
                                 (''*1'', PyDict [(''major'', PyInt 1)])]),
                (''*1'', PyDict [(''*0'', PyDict [(''major'', PyInt 10)]),
                                 (''*1'', PyDict [(''major'', PyInt 11)])]),
                (''*2'', PyDict [(''*0'', PyDict [(''major'', PyInt 20)]),
                                 (''*1'', PyDict [(''major'', PyInt 21)])])]),
             (''nChannels'', PyInt 3), (''nStokes'', PyInt 2)])]), s))
       (\<lambda>u s. (Inr (PyDict []), s)) (\<lambda>u s. (Inr (PyDict []), s)) () ()
     = (Inr (PyDict [(''imageinfo'', PyDict imageinfo), (''coordinates'', PyDict []),
                     (''miscinfo'', PyDict [])]), ())
     \<and> map_of imageinfo ''perplanebeams'' = Some (PyDict flat)
     \<and> map_of flat ''beams'' = None
     \<and> map_of flat ''*4'' = Some (PyDict [(''major'', PyInt 11)])"
proof -
  let ?b = "\<lambda>c p. PyDict [(''major'', PyInt (int (10 * c + p)))]"
  let ?beams = "[
                (''*0'', PyDict [(''*0'', PyDict [(''major'', PyInt 0)]),
                                 (''*1'', PyDict [(''major'', PyInt 1)])]),
                (''*1'', PyDict [(''*0'', PyDict [(''major'', PyInt 10)]),
                                 (''*1'', PyDict [(''major'', PyInt 11)])]),
                (''*2'', PyDict [(''*0'', PyDict [(''major'', PyInt 20)]),
                                 (''*1'', PyDict [(''major'', PyInt 21)])])]"
  let ?ppb = "[(''beams'', PyDict ?beams), (''nChannels'', PyInt 3), (''nStokes'', PyInt 2)]"
  let ?summary = "[(''ndim'', PyInt 4), (''perplanebeams'', PyDict ?ppb)]"
  have digits: "str_nat 0 = ''0''" "str_nat 1 = ''1''" "str_nat 2 = ''2''" "str_int 4 = ''4''"
    "str_nat (Suc 0) = ''1''"
    by code_simp+
  have entries: "\<forall>c < nat 3. \<forall>p < nat 2. \<exists>row.
             map_of ?beams (''*'' @ str_nat c) = Some (PyDict row)
             \<and> map_of row (''*'' @ str_nat p) = Some (?b c p)
             \<and> arrays_of (?b c p) = []"
  proof (intro allI impI)
    fix c p :: nat assume "c < nat 3" "p < nat 2"
    then have "(c = 0 \<or> c = 1 \<or> c = 2) \<and> (p = 0 \<or> p = 1)" by auto
    then show "\<exists>row.
             map_of ?beams (''*'' @ str_nat c) = Some (PyDict row)
             \<and> map_of row (''*'' @ str_nat p) = Some (?b c p)
             \<and> arrays_of (?b c p) = []"
      by (elim conjE disjE) (simp_all add: digits)
  qed
  from image_info_flattens_beams [where raw_summary = "\<lambda>u s. (Inr (PyDict ?summary), s)"
      and raw_coordsys_torecord = "\<lambda>u s. (Inr (PyDict []), s)"
      and raw_miscinfo = "\<lambda>u s. (Inr (PyDict []), s)"
      and s = "()" and ?s1.0 = "()" and ?s2.0 = "()" and ?s3.0 = "()"
      and summary = ?summary and ppb = ?ppb and beams = ?beams
      and coordinates = "PyDict []" and miscinfo = "PyDict []"
      and nchan = 3 and npol = 2 and b = ?b, OF refl refl refl _ _ _ _ entries]
  obtain imageinfo flat where r:
    "image_info (\<lambda>u s. (Inr (PyDict ?summary), s)) (\<lambda>u s. (Inr (PyDict []), s))
        (\<lambda>u s. (Inr (PyDict []), s)) () ()
       = (Inr (PyDict [(''imageinfo'', PyDict imageinfo), (''coordinates'', PyDict []),
                     (''miscinfo'', PyDict [])]), ())"
    "map_of imageinfo ''perplanebeams'' = Some (PyDict flat)"
    "map_of flat ''beams'' = None"
    "\<forall>c < nat 3. \<forall>p < nat 2.
        map_of flat (''*'' @ str_int (3 * int p + int c)) = Some (?b c p)"
    by auto
  have "(1::nat) < nat 3" "(1::nat) < nat 2" by simp_all
  with r(4) have "map_of flat (''*'' @ str_int (3 * int 1 + int 1)) = Some (?b 1 1)"
    by blast
  then have "map_of flat ''*4'' = Some (PyDict [(''major'', PyInt 11)])"
    by (simp add: digits)
  with r(1-3) show ?thesis by blast
qed

end
